theory Spec2Isabelle
  imports Complex_Main
begin

section \<open>JavaScript values used by the trace-context codec\<close>

text \<open>
  The codec of \<^verbatim>\<open>lib/transaction/tracecontext.js\<close> works on strings, on numbers and on
  the two absent values \<^verbatim>\<open>undefined\<close> and \<^verbatim>\<open>null\<close>. A value that may be absent is a
  \<open>jsopt\<close>. Strings are lists of code units below 256, which is what a header value
  holds. A raised \<^verbatim>\<open>TypeError\<close> (a method called on \<^verbatim>\<open>undefined\<close>) is the left
  summand of a result.
\<close>

datatype 'a jsopt = Undefined | Null | Val 'a

datatype js_error = TypeError

text \<open>\<^verbatim>\<open>v == null\<close> holds for \<^verbatim>\<open>undefined\<close> and for \<^verbatim>\<open>null\<close>.\<close>

fun isNull :: "'a jsopt \<Rightarrow> bool" where
  "isNull Undefined = True"
| "isNull Null = True"
| "isNull (Val v) = False"

text \<open>
  Numbers are idealised: \<open>Num r\<close> stands for the double nearest to the rational \<open>r\<close>
  (so \<open>-0\<close> and \<open>0\<close> coincide, and no rounding or overflow to infinity happens).
\<close>

datatype jsnum = NaN | PInf | NInf | Num rat

fun isNaN :: "jsnum \<Rightarrow> bool" where
  "isNaN NaN = True"
| "isNaN v = False"

text \<open>\<^verbatim>\<open>Boolean(v)\<close> for a number that may be absent.\<close>

fun Boolean_num :: "jsnum jsopt \<Rightarrow> bool" where
  "Boolean_num Undefined = False"
| "Boolean_num Null = False"
| "Boolean_num (Val NaN) = False"
| "Boolean_num (Val (Num r)) = (r \<noteq> 0)"
| "Boolean_num (Val v) = True"

text \<open>\<^verbatim>\<open>a - b\<close>, \<^verbatim>\<open>a / 1000\<close> and \<^verbatim>\<open>Math.max(0, a)\<close> on numbers.\<close>

fun js_minus :: "jsnum \<Rightarrow> jsnum \<Rightarrow> jsnum" where
  "js_minus (Num a) (Num b) = Num (a - b)"
| "js_minus NaN b = NaN"
| "js_minus a NaN = NaN"
| "js_minus PInf PInf = NaN"
| "js_minus NInf NInf = NaN"
| "js_minus PInf b = PInf"
| "js_minus NInf b = NInf"
| "js_minus a PInf = NInf"
| "js_minus a NInf = PInf"

fun js_div_pos :: "jsnum \<Rightarrow> rat \<Rightarrow> jsnum" where
  "js_div_pos (Num a) d = Num (a / d)"
| "js_div_pos v d = v"

fun Math_max0 :: "jsnum \<Rightarrow> jsnum" where
  "Math_max0 (Num a) = Num (max 0 a)"
| "Math_max0 NaN = NaN"
| "Math_max0 PInf = PInf"
| "Math_max0 NInf = Num 0"

subsection \<open>Strings\<close>

text \<open>\<^verbatim>\<open>s.split(c)\<close> for a one-character separator: never empty, \<^verbatim>\<open>''.split(c)\<close> is \<^verbatim>\<open>['']\<close>.\<close>

fun split_str :: "char \<Rightarrow> string \<Rightarrow> string list" where
  "split_str c [] = [[]]"
| "split_str c (x # xs) =
     (if x = c then [] # split_str c xs
      else (case split_str c xs of
              [] \<Rightarrow> [[x]]
            | y # ys \<Rightarrow> (x # y) # ys))"

text \<open>\<^verbatim>\<open>xs.join(sep)\<close> on an array of strings.\<close>

fun join_str :: "string \<Rightarrow> string list \<Rightarrow> string" where
  "join_str sep [] = []"
| "join_str sep [x] = x"
| "join_str sep (x # y # ys) = x @ sep @ join_str sep (y # ys)"

text \<open>In \<^verbatim>\<open>join\<close>, an element that is \<^verbatim>\<open>undefined\<close> or \<^verbatim>\<open>null\<close> is rendered empty.\<close>

fun join_elem :: "string jsopt \<Rightarrow> string" where
  "join_elem (Val s) = s"
| "join_elem v = []"

definition join_opt :: "string \<Rightarrow> string jsopt list \<Rightarrow> string" where
  "join_opt sep xs = join_str sep (map join_elem xs)"

text \<open>\<^verbatim>\<open>xs[i]\<close>: \<^verbatim>\<open>undefined\<close> out of range.\<close>

definition at_index :: "'a list \<Rightarrow> nat \<Rightarrow> 'a jsopt" where
  "at_index xs i = (if i < length xs then Val (xs ! i) else Undefined)"

text \<open>\<^verbatim>\<open>xs.findIndex(p)\<close>: \<open>None\<close> stands for \<^verbatim>\<open>-1\<close>.\<close>

fun findIndex :: "('a \<Rightarrow> bool) \<Rightarrow> 'a list \<Rightarrow> nat option" where
  "findIndex p [] = None"
| "findIndex p (x # xs) =
     (if p x then Some 0 else map_option Suc (findIndex p xs))"

text \<open>\<^verbatim>\<open>xs.splice(i, 1)\<close>: the array that remains.\<close>

definition splice1 :: "nat \<Rightarrow> 'a list \<Rightarrow> 'a list" where
  "splice1 i xs = take i xs @ drop (Suc i) xs"

text \<open>\<^verbatim>\<open>s.padStart(n, '0')\<close>.\<close>

definition padStart :: "nat \<Rightarrow> char \<Rightarrow> string \<Rightarrow> string" where
  "padStart n c s = replicate (n - length s) c @ s"

text \<open>\<^verbatim>\<open>String(v)\<close> of a string that may be absent.\<close>

fun to_string :: "string jsopt \<Rightarrow> string" where
  "to_string Undefined = ''undefined''"
| "to_string Null = ''null''"
| "to_string (Val s) = s"

subsection \<open>Digits and numbers as text\<close>

definition is_digit :: "char \<Rightarrow> bool" where
  "is_digit c = (c \<in> set ''0123456789'')"

text \<open>The value of a character as a digit, in any radix up to 36.\<close>

definition digit_val :: "char \<Rightarrow> nat option" where
  "digit_val c =
     (let n = (of_char c :: nat) in
      if 48 \<le> n \<and> n \<le> 57 then Some (n - 48)
      else if 97 \<le> n \<and> n \<le> 122 then Some (n - 87)
      else if 65 \<le> n \<and> n \<le> 90 then Some (n - 55)
      else None)"

definition is_radix_digit :: "nat \<Rightarrow> char \<Rightarrow> bool" where
  "is_radix_digit R c = (case digit_val c of None \<Rightarrow> False | Some d \<Rightarrow> d < R)"

definition digits_val :: "nat \<Rightarrow> string \<Rightarrow> nat" where
  "digits_val R s = foldl (\<lambda>acc c. acc * R + (case digit_val c of None \<Rightarrow> 0 | Some d \<Rightarrow> d)) 0 s"

text \<open>White space removed by \<^verbatim>\<open>parseInt\<close> and \<^verbatim>\<open>parseFloat\<close> (code units below 256).\<close>

definition is_space :: "char \<Rightarrow> bool" where
  "is_space c = ((of_char c :: nat) \<in> {9, 10, 11, 12, 13, 32, 160})"

definition trimStart :: "string \<Rightarrow> string" where
  "trimStart s = dropWhile is_space s"

text \<open>An optional sign: the factor and the rest.\<close>

fun take_sign :: "string \<Rightarrow> rat \<times> string" where
  "take_sign [] = (1, [])"
| "take_sign (c # cs) =
     (if c = CHR ''-'' then (-1, cs)
      else if c = CHR ''+'' then (1, cs)
      else (1, c # cs))"

fun has_hex_prefix :: "string \<Rightarrow> bool" where
  "has_hex_prefix (a # b # cs) = (a = CHR ''0'' \<and> (b = CHR ''x'' \<or> b = CHR ''X''))"
| "has_hex_prefix cs = False"

text \<open>
  \<^verbatim>\<open>parseInt(s, radix)\<close>; radix \<open>0\<close> stands for an absent radix. The longest prefix of
  digits is read, whatever follows it.
\<close>

definition parseInt :: "string \<Rightarrow> nat \<Rightarrow> jsnum" where
  "parseInt s radix =
     (let (sgn, S) = take_sign (trimStart s) in
      if radix \<noteq> 0 \<and> (radix < 2 \<or> 36 < radix) then NaN
      else
        let stripPrefix = (radix = 0 \<or> radix = 16);
            R0 = (if radix = 0 then 10 else radix);
            (R, S') = (if stripPrefix \<and> has_hex_prefix S then (16, drop 2 S) else (R0, S));
            Z = takeWhile (is_radix_digit R) S'
        in if Z = [] then NaN else Num (sgn * of_nat (digits_val R Z)))"

text \<open>The exponent part of a decimal literal, \<open>0\<close> when there is none.\<close>

definition exponent_part :: "string \<Rightarrow> int" where
  "exponent_part s =
     (case s of
        [] \<Rightarrow> 0
      | e # r \<Rightarrow>
          if e = CHR ''e'' \<or> e = CHR ''E'' then
            (let (sg, r') = (case r of
                               [] \<Rightarrow> (1, [])
                             | c # cs \<Rightarrow> if c = CHR ''-'' then (-1, cs)
                                         else if c = CHR ''+'' then (1, cs)
                                         else (1, c # cs));
                 ds = takeWhile is_digit r'
             in if ds = [] then 0 else sg * int (digits_val 10 ds))
          else 0)"

definition scale10 :: "rat \<Rightarrow> int \<Rightarrow> rat" where
  "scale10 m e = (if 0 \<le> e then m * 10 ^ nat e else m / 10 ^ nat (- e))"

text \<open>\<^verbatim>\<open>parseFloat(s)\<close>: the longest prefix that is a decimal literal.\<close>

definition parseFloat :: "string \<Rightarrow> jsnum" where
  "parseFloat s =
     (let (sgn, u) = take_sign (trimStart s) in
      if take 8 u = ''Infinity'' then (if sgn < 0 then NInf else PInf)
      else
        let ip = takeWhile is_digit u;
            r1 = dropWhile is_digit u;
            dot = (r1 \<noteq> [] \<and> hd r1 = CHR ''.'');
            fp = (if dot then takeWhile is_digit (tl r1) else []);
            r2 = (if dot then dropWhile is_digit (tl r1) else r1)
        in if ip = [] \<and> fp = [] then NaN
           else Num (sgn * scale10 (of_nat (digits_val 10 ip)
                                    + of_nat (digits_val 10 fp) / 10 ^ length fp)
                                   (exponent_part r2)))"

text \<open>Decimal and hexadecimal digits of a natural number, as \<^verbatim>\<open>n.toString(radix)\<close> gives them.\<close>

definition digit_char :: "nat \<Rightarrow> char" where
  "digit_char d = (''0123456789abcdef'' ! d)"

fun show_nat :: "nat \<Rightarrow> string" where
  "show_nat n = (if n < 10 then [digit_char n] else show_nat (n div 10) @ [digit_char (n mod 10)])"

fun show_hex :: "nat \<Rightarrow> string" where
  "show_hex n = (if n < 16 then [digit_char n] else show_hex (n div 16) @ [digit_char (n mod 16)])"

text \<open>
  \<^verbatim>\<open>x.toFixed(f)\<close>. From \<open>10^21\<close> on JavaScript prints the number in exponent notation,
  which depends on the double's digits: that range is outside this model, \<open>None\<close>.
\<close>

definition toFixed :: "nat \<Rightarrow> jsnum \<Rightarrow> string option" where
  "toFixed f x =
     (case x of
        NaN \<Rightarrow> Some ''NaN''
      | PInf \<Rightarrow> Some ''Infinity''
      | NInf \<Rightarrow> Some ''-Infinity''
      | Num r \<Rightarrow>
          if 10 ^ 21 \<le> \<bar>r\<bar> then None
          else
            let n = nat \<lfloor>\<bar>r\<bar> * 10 ^ f + 1 / 2\<rfloor>;
                m = padStart (Suc f) (CHR ''0'') (show_nat n);
                a = take (length m - f) m;
                b = drop (length m - f) m
            in Some ((if r < 0 then ''-'' else []) @ a @ (if f = 0 then [] else ''.'' @ b)))"

section \<open>The codec\<close>

text \<open>
  The class \<^verbatim>\<open>TraceContext\<close>, function by function. A private method keeps its name
  without the leading underscore. The trusted account key is a parameter of the
  decoder: the source reads it from the agent's configuration and makes a string of it.
\<close>

subsection \<open>Constants\<close>

definition PARENT_TYPES :: "string list" where
  "PARENT_TYPES = [''App'', ''Browser'', ''Mobile'']"

definition W3C_TRACEPARENT_VERSION :: string where
  "W3C_TRACEPARENT_VERSION = ''00''"

definition NR_TRACESTATE_VERSION :: nat where
  "NR_TRACESTATE_VERSION = 0"

definition FLAGS_sampled :: nat where
  "FLAGS_sampled = 1"

text \<open>The character class \<^verbatim>\<open>[a-f0-9]\<close>.\<close>

definition lower_hex :: "char \<Rightarrow> bool" where
  "lower_hex c = (c \<in> set ''0123456789abcdef'')"

text \<open>
  The four patterns have one shape, \<^verbatim>\<open>^((?![c]{n})[a-f0-9]{n})$\<close>: exactly \<open>n\<close>
  characters of the class, where the look-ahead refuses an input whose next \<open>n\<close>
  characters are all \<open>c\<close>. Without the
  \<^verbatim>\<open>m\<close> flag, \<^verbatim>\<open>^\<close> and \<^verbatim>\<open>$\<close> are the two ends of the input.
\<close>

definition hex_rgx :: "nat \<Rightarrow> char option \<Rightarrow> string \<Rightarrow> bool" where
  "hex_rgx n forbidden s =
     ((case forbidden of
         None \<Rightarrow> True
       | Some c \<Rightarrow> \<not> (n \<le> length s \<and> list_all (\<lambda>x. x = c) (take n s)))
      \<and> length s = n \<and> list_all lower_hex s)"

definition VERSION_VALID_RGX :: "string \<Rightarrow> bool" where
  "VERSION_VALID_RGX = hex_rgx 2 (Some (CHR ''f''))"

definition TRACEID_VALID_RGX :: "string \<Rightarrow> bool" where
  "TRACEID_VALID_RGX = hex_rgx 32 (Some (CHR ''0''))"

definition PARENTID_VALID_RGX :: "string \<Rightarrow> bool" where
  "PARENTID_VALID_RGX = hex_rgx 16 (Some (CHR ''0''))"

definition FLAGS_VALID_RGX :: "string \<Rightarrow> bool" where
  "FLAGS_VALID_RGX = hex_rgx 2 None"

text \<open>
  \<^verbatim>\<open>v.match(rgx)\<close>, read for its truth value: a \<^verbatim>\<open>TypeError\<close> when \<open>v\<close> is
  \<^verbatim>\<open>undefined\<close>. \<open>and_also\<close> is \<^verbatim>\<open>&&\<close>: the right operand is evaluated only when
  the left one is truthy.
\<close>

definition str_match :: "string jsopt \<Rightarrow> (string \<Rightarrow> bool) \<Rightarrow> js_error + bool" where
  "str_match v rgx = (case v of Val s \<Rightarrow> Inr (rgx s) | _ \<Rightarrow> Inl TypeError)"

definition and_also :: "js_error + bool \<Rightarrow> js_error + bool \<Rightarrow> js_error + bool" where
  "and_also a b =
     (case a of
        Inl e \<Rightarrow> Inl e
      | Inr t \<Rightarrow> if t then b else Inr False)"

subsection \<open>Decoding traceparent\<close>

record traceParentInfo =
  tpi_entryValid :: bool
  tpi_version :: "string jsopt"
  tpi_traceId :: "string jsopt"
  tpi_parentId :: "string jsopt"
  tpi_flags :: "string jsopt"

definition traceParentInfo_init :: traceParentInfo where
  "traceParentInfo_init =
     \<lparr>tpi_entryValid = False, tpi_version = Null, tpi_traceId = Null,
      tpi_parentId = Null, tpi_flags = Null\<rparr>"

definition validateAndParseTraceParentHeader :: "string \<Rightarrow> js_error + traceParentInfo" where
  "validateAndParseTraceParentHeader traceparent =
     (if traceparent = [] then Inr traceParentInfo_init
      else
        let parts = split_str (CHR ''-'') traceparent in
        if at_index parts 0 = Val W3C_TRACEPARENT_VERSION \<and> length parts \<noteq> 4
        then Inr traceParentInfo_init
        else
          let version = at_index parts 0;
              traceId = at_index parts 1;
              parentId = at_index parts 2;
              flags = at_index parts 3
          in case and_also (str_match version VERSION_VALID_RGX)
                   (and_also (str_match traceId TRACEID_VALID_RGX)
                     (and_also (str_match parentId PARENTID_VALID_RGX)
                       (str_match flags FLAGS_VALID_RGX))) of
               Inl e \<Rightarrow> Inl e
             | Inr isValid \<Rightarrow>
                 if isValid
                 then Inr \<lparr>tpi_entryValid = True, tpi_version = version, tpi_traceId = traceId,
                           tpi_parentId = parentId, tpi_flags = flags\<rparr>
                 else Inr traceParentInfo_init)"

subsection \<open>The vendor entry\<close>

text \<open>The nine positional fields as split, as converted, and as validated.\<close>

record split_intrinsics =
  s_version :: "string jsopt"
  s_parentType :: "string jsopt"
  s_accountId :: "string jsopt"
  s_appId :: "string jsopt"
  s_spanId :: "string jsopt"
  s_transactionId :: "string jsopt"
  s_sampled :: "string jsopt"
  s_priority :: "string jsopt"
  s_timestamp :: "string jsopt"

record parsed_intrinsics =
  p_version :: jsnum
  p_parentType :: jsnum
  p_accountId :: "string jsopt"
  p_appId :: "string jsopt"
  p_spanId :: "string jsopt"
  p_transactionId :: "string jsopt"
  p_sampled :: "jsnum jsopt"
  p_priority :: "jsnum jsopt"
  p_timestamp :: jsnum

record intrinsics =
  i_version :: jsnum
  i_parentType :: "string jsopt"
  i_accountId :: "string jsopt"
  i_appId :: "string jsopt"
  i_spanId :: "string jsopt"
  i_transactionId :: "string jsopt"
  i_sampled :: bool
  i_priority :: "jsnum jsopt"
  i_timestamp :: jsnum
  i_entryValid :: "bool jsopt"
  i_entryInvalidReason :: "string jsopt"

text \<open>An empty field becomes \<^verbatim>\<open>null\<close>; a field that is not there is \<^verbatim>\<open>undefined\<close>.\<close>

definition empty_to_null :: "string \<Rightarrow> string jsopt" where
  "empty_to_null v = (if v = [] then Null else Val v)"

definition nullable_at :: "string list \<Rightarrow> nat \<Rightarrow> string jsopt" where
  "nullable_at xs i = (if i < length xs then empty_to_null (xs ! i) else Undefined)"

definition extractTraceStateIntrinsics :: "string \<Rightarrow> split_intrinsics" where
  "extractTraceStateIntrinsics nrTracestate =
     (let splitValues = split_str (CHR ''-'') nrTracestate in
      \<lparr>s_version = nullable_at splitValues 0,
       s_parentType = nullable_at splitValues 1,
       s_accountId = nullable_at splitValues 2,
       s_appId = nullable_at splitValues 3,
       s_spanId = nullable_at splitValues 4,
       s_transactionId = nullable_at splitValues 5,
       s_sampled = nullable_at splitValues 6,
       s_priority = nullable_at splitValues 7,
       s_timestamp = nullable_at splitValues 8\<rparr>)"

text \<open>
  The conversions: \<^verbatim>\<open>parseInt\<close> without a radix for version, parentType and timestamp
  (an absent value is first turned into its name); \<^verbatim>\<open>sampled\<close> and \<^verbatim>\<open>priority\<close> are
  left alone when absent.
\<close>

definition conv_int :: "string jsopt \<Rightarrow> jsnum" where
  "conv_int v = parseInt (to_string v) 0"

definition conv_sampled :: "string jsopt \<Rightarrow> jsnum jsopt" where
  "conv_sampled v = (case v of Val s \<Rightarrow> Val (parseInt s 10) | Null \<Rightarrow> Null | Undefined \<Rightarrow> Undefined)"

definition conv_priority :: "string jsopt \<Rightarrow> jsnum jsopt" where
  "conv_priority v = (case v of Val s \<Rightarrow> Val (parseFloat s) | Null \<Rightarrow> Null | Undefined \<Rightarrow> Undefined)"

definition parseIntrinsics :: "string \<Rightarrow> parsed_intrinsics" where
  "parseIntrinsics nrTracestateValue =
     (let x = extractTraceStateIntrinsics nrTracestateValue in
      \<lparr>p_version = conv_int (s_version x),
       p_parentType = conv_int (s_parentType x),
       p_accountId = s_accountId x,
       p_appId = s_appId x,
       p_spanId = s_spanId x,
       p_transactionId = s_transactionId x,
       p_sampled = conv_sampled (s_sampled x),
       p_priority = conv_priority (s_priority x),
       p_timestamp = conv_int (s_timestamp x)\<rparr>)"

text \<open>
  The table \<^verbatim>\<open>intrinsicInvalidations\<close>, in the order of its keys: the name of the field
  and whether its test says invalid. \<^verbatim>\<open>parentType\<close> is tested with \<^verbatim>\<open>v == null\<close> on
  the number that \<^verbatim>\<open>parseInt\<close> returned, which is never \<^verbatim>\<open>null\<close>.
\<close>

definition optional_isNaN :: "jsnum jsopt \<Rightarrow> bool" where
  "optional_isNaN v = (case v of Val n \<Rightarrow> isNaN n | _ \<Rightarrow> False)"

definition intrinsicInvalidations :: "parsed_intrinsics \<Rightarrow> (string \<times> bool) list" where
  "intrinsicInvalidations x =
     [(''version'', isNaN (p_version x)),
      (''parentType'', isNull (Val (p_parentType x))),
      (''accountId'', isNull (p_accountId x)),
      (''appId'', isNull (p_appId x)),
      (''sampled'', optional_isNaN (p_sampled x)),
      (''priority'', optional_isNaN (p_priority x)),
      (''timestamp'', isNaN (p_timestamp x))]"

text \<open>The loop over the table: the flag and the reason after each key.\<close>

fun invalidation_loop :: "(string \<times> bool) list \<Rightarrow> bool \<times> string jsopt \<Rightarrow> bool \<times> string jsopt" where
  "invalidation_loop [] acc = acc"
| "invalidation_loop ((key, invalid) # rest) (entryValid, reason) =
     (if invalid
      then invalidation_loop rest (False, Val (key @ '' failed invalidation test''))
      else invalidation_loop rest (entryValid, reason))"

text \<open>\<^verbatim>\<open>PARENT_TYPES[n]\<close> for a number \<open>n\<close>, and the truth value of a string that may be absent.\<close>

definition truthy_str :: "string jsopt \<Rightarrow> bool" where
  "truthy_str v = (case v of Val s \<Rightarrow> s \<noteq> [] | _ \<Rightarrow> False)"

definition PARENT_TYPES_at :: "jsnum \<Rightarrow> string jsopt" where
  "PARENT_TYPES_at n =
     (case n of
        Num r \<Rightarrow> if of_int \<lfloor>r\<rfloor> = r \<and> 0 \<le> r then at_index PARENT_TYPES (nat \<lfloor>r\<rfloor>) else Undefined
      | _ \<Rightarrow> Undefined)"

text \<open>The body of \<^verbatim>\<open>_validateAndParseIntrinsics\<close> after the fields are converted.\<close>

definition validateIntrinsics :: "parsed_intrinsics \<Rightarrow> intrinsics" where
  "validateIntrinsics x =
     (let (entryValid, reason) = invalidation_loop (intrinsicInvalidations x) (True, Undefined);
          sampled = Boolean_num (p_sampled x);
          parentType = PARENT_TYPES_at (p_parentType x);
          entryValid' = (if \<not> truthy_str parentType then False else entryValid)
      in \<lparr>i_version = p_version x,
          i_parentType = parentType,
          i_accountId = p_accountId x,
          i_appId = p_appId x,
          i_spanId = p_spanId x,
          i_transactionId = p_transactionId x,
          i_sampled = sampled,
          i_priority = p_priority x,
          i_timestamp = p_timestamp x,
          i_entryValid = Val entryValid',
          i_entryInvalidReason = reason\<rparr>)"

definition validateAndParseIntrinsics :: "string \<Rightarrow> intrinsics" where
  "validateAndParseIntrinsics nrTracestateValue = validateIntrinsics (parseIntrinsics nrTracestateValue)"

subsection \<open>Decoding tracestate\<close>

record TraceStateData =
  entryFound :: bool
  tsd_entryValid :: "bool jsopt"
  entryInvalidReason :: "string jsopt"
  traceStateValid :: bool
  tsd_intrinsics :: "intrinsics jsopt"
  newTraceState :: "string jsopt"
  vendors :: "string jsopt list"

text \<open>
  The callback of \<^verbatim>\<open>listMembers.map\<close>: the key of a member that splits on \<^verbatim>\<open>=\<close> into
  two parts, \<^verbatim>\<open>undefined\<close> for any other member (which also clears \<^verbatim>\<open>traceStateValid\<close>).
\<close>

definition member_key :: "string \<Rightarrow> string jsopt" where
  "member_key lm =
     (let split = split_str (CHR ''='') lm in
      if length split \<noteq> 2 then Undefined else at_index split 0)"

definition member_ok :: "string \<Rightarrow> bool" where
  "member_ok lm = (length (split_str (CHR ''='') lm) = 2)"

text \<open>
  The trusted account key is read from the agent's configuration. The reason copied
  into the result is read from the property \<^verbatim>\<open>invalidReason\<close>, which the validator
  never sets, so it is \<^verbatim>\<open>undefined\<close>.
\<close>

definition validateAndParseTraceStateHeader :: "string \<Rightarrow> string \<Rightarrow> js_error + TraceStateData" where
  "validateAndParseTraceStateHeader trustedKey tracestate =
     (let listMembers = split_str (CHR '','') tracestate;
          vs = map member_key listMembers;
          tsd = \<lparr>entryFound = False, tsd_entryValid = Undefined, entryInvalidReason = Undefined,
                 traceStateValid = False, tsd_intrinsics = Undefined, newTraceState = Undefined,
                 vendors = vs\<rparr>
      in if \<not> list_all member_ok listMembers then Inr tsd
         else
           (case findIndex (\<lambda>v. v = Val (trustedKey @ ''@nr'')) vs of
              None \<Rightarrow>
                Inr (tsd\<lparr>traceStateValid := True,
                         newTraceState := Val (join_str '','' listMembers)\<rparr>)
            | Some nrVendorIndex \<Rightarrow>
                (case at_index listMembers nrVendorIndex of
                   Val nrTraceStateEntry \<Rightarrow>
                     (case at_index (split_str (CHR ''='') nrTraceStateEntry) 1 of
                        Val nrTraceStateValue \<Rightarrow>
                          (let intrinsicsValidation = validateAndParseIntrinsics nrTraceStateValue;
                               tsd' = tsd\<lparr>traceStateValid := True, entryFound := True,
                                          vendors := splice1 nrVendorIndex vs,
                                          newTraceState :=
                                            Val (join_str '','' (splice1 nrVendorIndex listMembers))\<rparr>
                           in if i_entryValid intrinsicsValidation = Val True
                              then Inr (tsd'\<lparr>tsd_entryValid := Val True,
                                             tsd_intrinsics :=
                                               Val (intrinsicsValidation\<lparr>i_entryValid := Undefined\<rparr>)\<rparr>)
                              else Inr (tsd'\<lparr>tsd_entryValid := Val False,
                                             entryInvalidReason := Undefined\<rparr>))
                      | _ \<Rightarrow> Inl TypeError)
                 | _ \<Rightarrow> Inl TypeError)))"

subsection \<open>The codec instance and the decode entry point\<close>

text \<open>
  The instance holds the pass-through tracestate, the trusted parent id and the vendor
  keys. The supportability metrics recorded on the agent are kept as a list beside them;
  log lines are left out. The time of \<^verbatim>\<open>Date.now()\<close> is a parameter, in milliseconds.
\<close>

record TraceContext =
  tracingVendors :: "string jsopt"
  trustedParentId :: "string jsopt"
  traceStateRaw :: "string jsopt"
  supportability :: "string list"

record traceContextData =
  acceptedTraceparent :: bool
  acceptedTracestate :: bool
  acceptedNRTracestate :: bool
  traceId :: "string jsopt"
  parentSpanId :: "string jsopt"
  parentType :: "string jsopt"
  accountId :: "string jsopt"
  appId :: "string jsopt"
  transactionId :: "string jsopt"
  sampled :: "bool jsopt"
  priority :: "jsnum jsopt"
  transportDuration :: "jsnum jsopt"

definition traceContextData_init :: traceContextData where
  "traceContextData_init =
     \<lparr>acceptedTraceparent = False, acceptedTracestate = False, acceptedNRTracestate = False,
      traceId = Null, parentSpanId = Null, parentType = Null, accountId = Null, appId = Null,
      transactionId = Null, sampled = Null, priority = Null, transportDuration = Null\<rparr>"

definition recordSupportability :: "string \<Rightarrow> TraceContext \<Rightarrow> TraceContext" where
  "recordSupportability name this = this\<lparr>supportability := supportability this @ [name]\<rparr>"

definition acceptTraceContextPayload ::
  "string \<Rightarrow> nat \<Rightarrow> TraceContext \<Rightarrow> string \<Rightarrow> string \<Rightarrow> js_error + (TraceContext \<times> traceContextData)" where
  "acceptTraceContextPayload trustedKey now this traceparent tracestate =
     (if traceparent = [] then Inr (this, traceContextData_init)
      else
        (case validateAndParseTraceParentHeader traceparent of
           Inl e \<Rightarrow> Inl e
         | Inr parsedParent \<Rightarrow>
            if \<not> tpi_entryValid parsedParent
            then Inr (recordSupportability ''TraceContext/TraceParent/Parse/Exception'' this,
                      traceContextData_init)
            else
              let d = traceContextData_init\<lparr>acceptedTraceparent := True,
                        traceId := tpi_traceId parsedParent,
                        parentSpanId := tpi_parentId parsedParent\<rparr>
              in if tracestate = [] then Inr (this, d)
                 else
                   (case validateAndParseTraceStateHeader trustedKey tracestate of
                      Inl e \<Rightarrow> Inl e
                    | Inr parsedState \<Rightarrow>
                       if \<not> traceStateValid parsedState then Inr (this, d)
                       else
                         let this1 = this\<lparr>traceStateRaw := newTraceState parsedState,
                                       tracingVendors := Val (join_opt '','' (vendors parsedState))\<rparr>
                         in if tsd_entryValid parsedState = Val True
                            then
                              (case tsd_intrinsics parsedState of
                                 Val i \<Rightarrow>
                                   Inr (recordSupportability ''TraceContext/Accept/Success''
                                          (this1\<lparr>trustedParentId := i_spanId i,
                                                 traceStateRaw := newTraceState parsedState\<rparr>),
                                        d\<lparr>acceptedTracestate := True,
                                          parentType := i_parentType i,
                                          accountId := i_accountId i,
                                          appId := i_appId i,
                                          transactionId := i_transactionId i,
                                          sampled := Val (i_sampled i),
                                          priority := i_priority i,
                                          transportDuration :=
                                            Val (Math_max0 (js_div_pos
                                                   (js_minus (Num (of_nat now)) (i_timestamp i)) 1000))\<rparr>)
                               | _ \<Rightarrow> Inl TypeError)
                            else if entryFound parsedState
                            then Inr (recordSupportability
                                        ''TraceContext/TraceState/InvalidNrEntry'' this1, d)
                            else Inr (this1, d))))"

subsection \<open>Encoding\<close>

text \<open>
  What the encoder reads from its collaborators: the transaction (its trace id, its id,
  its sampled flag and its priority), the agent's configuration, the id of the segment
  in context (\<^verbatim>\<open>null\<close> when there is none), the id that \<^verbatim>\<open>hashes.makeId()\<close> would
  draw, and the clock. Configuration values are taken as the strings that the template
  literal makes of them.
\<close>

record Transaction =
  getTraceId :: string
  tx_id :: string
  tx_sampled :: "bool jsopt"
  tx_priority :: "jsnum jsopt"

record Config =
  trusted_account_key :: string
  primary_application_id :: string
  account_id :: string
  span_events_enabled :: bool
  transaction_events_enabled :: bool

record Agent =
  transaction :: Transaction
  config :: Config
  getSegment :: "string jsopt"
  makeId :: string
  Date_now :: nat

definition truthy_bool :: "bool jsopt \<Rightarrow> bool" where
  "truthy_bool v = (v = Val True)"

definition createFlagsHex :: "Agent \<Rightarrow> string" where
  "createFlagsHex a =
     (let flagsNum = (if truthy_bool (tx_sampled (transaction a)) then 0 + FLAGS_sampled else 0)
      in padStart 2 (CHR ''0'') (show_hex flagsNum))"

definition traceparent :: "Agent \<Rightarrow> string" where
  "traceparent a =
     (let traceId = padStart 32 (CHR ''0'') (getTraceId (transaction a));
          parentId0 = (if truthy_str (getSegment a) then to_string (getSegment a) else makeId a);
          parentId = padStart 16 (CHR ''0'') parentId0
      in W3C_TRACEPARENT_VERSION @ ''-'' @ traceId @ ''-'' @ parentId @ ''-'' @ createFlagsHex a)"

text \<open>\<^verbatim>\<open>xs.indexOf(x)\<close> and the decimal text of an integer.\<close>

definition indexOf :: "'a \<Rightarrow> 'a list \<Rightarrow> int" where
  "indexOf x xs = (case findIndex (\<lambda>y. y = x) xs of None \<Rightarrow> - 1 | Some i \<Rightarrow> int i)"

definition show_int :: "int \<Rightarrow> string" where
  "show_int i = (if i < 0 then ''-'' @ show_nat (nat (- i)) else show_nat (nat i))"

text \<open>
  The priority as text: empty when the priority is falsy (absent, \<open>0\<close> or \<open>NaN\<close>),
  else \<^verbatim>\<open>toFixed(6)\<close>.
\<close>

definition priority_text :: "jsnum jsopt \<Rightarrow> string option" where
  "priority_text p = (if Boolean_num p then (case p of Val n \<Rightarrow> toFixed 6 n | _ \<Rightarrow> Some []) else Some [])"

text \<open>
  The tracestate getter. The result is \<open>None\<close> only where \<open>toFixed\<close> is outside the
  model.
\<close>

definition tracestate :: "Agent \<Rightarrow> TraceContext \<Rightarrow> string option" where
  "tracestate a this =
     (let trustedAccountKey = trusted_account_key (config a);
          version = NR_TRACESTATE_VERSION;
          parentType = indexOf ''App'' PARENT_TYPES;
          appId = primary_application_id (config a);
          accountId = account_id (config a);
          spanId = (if span_events_enabled (config a)
                    then (case getSegment a of Val sid \<Rightarrow> sid | _ \<Rightarrow> [])
                    else []);
          transactionId = (if transaction_events_enabled (config a) then tx_id (transaction a) else []);
          sampled = (if truthy_bool (tx_sampled (transaction a)) then ''1'' else ''0'');
          timestamp = Date_now a
      in case priority_text (tx_priority (transaction a)) of
           None \<Rightarrow> None
         | Some priorityText \<Rightarrow>
             (let nrTraceState =
                    trustedAccountKey @ ''@nr='' @ show_nat version @ ''-'' @ show_int parentType
                    @ ''-'' @ accountId @ ''-'' @ appId @ ''-'' @ spanId @ ''-'' @ transactionId
                    @ ''-'' @ sampled @ ''-'' @ priorityText @ ''-'' @ show_nat timestamp
              in if truthy_str (traceStateRaw this)
                 then Some (nrTraceState @ '','' @ to_string (traceStateRaw this))
                 else Some nrTraceState))"

text \<open>\<^verbatim>\<open>createTraceContextPayload\<close>: the two header values, and the metric it records.\<close>

definition createTraceContextPayload :: "Agent \<Rightarrow> TraceContext \<Rightarrow> (TraceContext \<times> string \<times> string) option" where
  "createTraceContextPayload a this =
     (case tracestate a this of
        None \<Rightarrow> None
      | Some ts \<Rightarrow>
          Some (recordSupportability ''TraceContext/Create/Success'' this, traceparent a, ts))"

section \<open>Notions used to state the properties\<close>

text \<open>
  These definitions follow the words of the specification, not the code: what a key and
  a value of a list member are, what it means to drop the first member with a given key,
  and which value the first such member carries.
\<close>

definition key_of :: "string \<Rightarrow> string" where
  "key_of lm = takeWhile (\<lambda>c. c \<noteq> CHR ''='') lm"

definition value_of :: "string \<Rightarrow> string" where
  "value_of lm = tl (dropWhile (\<lambda>c. c \<noteq> CHR ''='') lm)"

fun remove_first_keyed :: "string \<Rightarrow> string list \<Rightarrow> string list" where
  "remove_first_keyed k [] = []"
| "remove_first_keyed k (lm # lms) = (if key_of lm = k then lms else lm # remove_first_keyed k lms)"

fun find_vendor_value :: "string \<Rightarrow> string list \<Rightarrow> string option" where
  "find_vendor_value k [] = None"
| "find_vendor_value k (lm # lms) = (if key_of lm = k then Some (value_of lm) else find_vendor_value k lms)"

text \<open>A field of \<open>n\<close> hexadecimal digits, and a field of zeros only.\<close>

definition hex_digits :: "nat \<Rightarrow> string \<Rightarrow> bool" where
  "hex_digits n t = (length t = n \<and> list_all lower_hex t)"

definition all_zero :: "string \<Rightarrow> bool" where
  "all_zero t = list_all (\<lambda>c. c = CHR ''0'') t"

text \<open>
  The names of the fields that fail their rule, in the order of the policy table, with
  \<^verbatim>\<open>parentType\<close> left out: the parent type is looked up after the loop.
\<close>

definition failing_fields :: "parsed_intrinsics \<Rightarrow> string list" where
  "failing_fields x =
     map fst (filter snd
       [(''version'', p_version x = NaN),
        (''accountId'', p_accountId x = Null \<or> p_accountId x = Undefined),
        (''appId'', p_appId x = Null \<or> p_appId x = Undefined),
        (''sampled'', p_sampled x = Val NaN),
        (''priority'', p_priority x = Val NaN),
        (''timestamp'', p_timestamp x = NaN)])"

text \<open>
  What the tracestate parser returns for a list of well-formed members, said with the
  notions above; and the result of the entry point once the traceparent is accepted.
\<close>

definition tsd_spec :: "string \<Rightarrow> string list \<Rightarrow> TraceStateData" where
  "tsd_spec k lms =
     (case find_vendor_value k lms of
        None \<Rightarrow>
          \<lparr>entryFound = False, tsd_entryValid = Undefined, entryInvalidReason = Undefined,
           traceStateValid = True, tsd_intrinsics = Undefined,
           newTraceState = Val (join_str '','' lms), vendors = map Val (map key_of lms)\<rparr>
      | Some v \<Rightarrow>
          \<lparr>entryFound = True,
           tsd_entryValid = Val (i_entryValid (validateAndParseIntrinsics v) = Val True),
           entryInvalidReason = Undefined, traceStateValid = True,
           tsd_intrinsics =
             (if i_entryValid (validateAndParseIntrinsics v) = Val True
              then Val ((validateAndParseIntrinsics v)\<lparr>i_entryValid := Undefined\<rparr>) else Undefined),
           newTraceState = Val (join_str '','' (remove_first_keyed k lms)),
           vendors = map Val (remove1 k (map key_of lms))\<rparr>)"

definition accepted_parent :: "traceParentInfo \<Rightarrow> traceContextData" where
  "accepted_parent p =
     traceContextData_init\<lparr>acceptedTraceparent := True, traceId := tpi_traceId p,
       parentSpanId := tpi_parentId p\<rparr>"

text \<open>
  Converted fields in which only the parent type is wrong: index 7 names no parent type.
\<close>

definition unmapped_parentType :: parsed_intrinsics where
  "unmapped_parentType =
     \<lparr>p_version = Num 0, p_parentType = Num 7, p_accountId = Val ''33'',
      p_appId = Val ''2827902'', p_spanId = Val ''7d3efb1b173fecfa'',
      p_transactionId = Val ''e8b91a159289ff74'', p_sampled = Val (Num 1),
      p_priority = Val (Num (3 / 2)), p_timestamp = Num 1569367663277\<rparr>"

text \<open>Converted fields of which three fail their rule, with the parent type index 7.\<close>

definition failing_with_unmapped_parentType :: parsed_intrinsics where
  "failing_with_unmapped_parentType =
     \<lparr>p_version = NaN, p_parentType = Num 7, p_accountId = Val ''33'',
      p_appId = Null, p_spanId = Val ''7d3efb1b173fecfa'',
      p_transactionId = Val ''e8b91a159289ff74'', p_sampled = Val (Num 1),
      p_priority = Val NaN, p_timestamp = Num 1569367663277\<rparr>"

text \<open>
  Well-formed identifiers of a unit of work, for the round trip. An id of at most \<open>n\<close>
  hexadecimal digits that are not all zeros (the encoder pads it with zeros on the
  left); a text that holds none of the separators \<^verbatim>\<open>-\<close>, \<^verbatim>\<open>,\<close> and \<^verbatim>\<open>=\<close>; a priority
  that is absent, or present and a positive number below \<open>10^9\<close> with at most six
  decimals. In that range a double with six decimals is printed by
  \<^verbatim>\<open>toFixed(6)\<close> and read back by \<^verbatim>\<open>parseFloat\<close> as itself, so the exact arithmetic of
  the model and the arithmetic of doubles give the same text and the same number.
\<close>

definition hex_id :: "nat \<Rightarrow> string \<Rightarrow> bool" where
  "hex_id n s = (length s \<le> n \<and> list_all lower_hex s \<and> \<not> all_zero s)"

definition no_separator :: "string \<Rightarrow> bool" where
  "no_separator s = list_all (\<lambda>c. c \<noteq> CHR ''-'' \<and> c \<noteq> CHR '','' \<and> c \<noteq> CHR ''='') s"

definition valid_priority :: "jsnum jsopt \<Rightarrow> bool" where
  "valid_priority p =
     (case p of
        Val (Num r) \<Rightarrow> 0 < r \<and> r < 10 ^ 9 \<and> of_int \<lfloor>r * 10 ^ 6\<rfloor> = r * 10 ^ 6
      | Val NaN \<Rightarrow> False
      | Val PInf \<Rightarrow> False
      | Val NInf \<Rightarrow> False
      | Null \<Rightarrow> True
      | Undefined \<Rightarrow> True)"

text \<open>
  The id that the traceparent getter takes as parent id; and the well-formed state of a
  unit of work. The clock is below \<open>10^21\<close>, where a number is still printed in plain
  digits.
\<close>

definition parent_id_source :: "Agent \<Rightarrow> string" where
  "parent_id_source a = (if truthy_str (getSegment a) then to_string (getSegment a) else makeId a)"

definition well_formed_state :: "Agent \<Rightarrow> bool" where
  "well_formed_state a =
     (hex_id 32 (getTraceId (transaction a))
      \<and> hex_id 16 (parent_id_source a)
      \<and> list_all (\<lambda>c. c \<noteq> CHR '','' \<and> c \<noteq> CHR ''='') (trusted_account_key (config a))
      \<and> account_id (config a) \<noteq> [] \<and> no_separator (account_id (config a))
      \<and> primary_application_id (config a) \<noteq> []
      \<and> no_separator (primary_application_id (config a))
      \<and> tx_id (transaction a) \<noteq> [] \<and> no_separator (tx_id (transaction a))
      \<and> valid_priority (tx_priority (transaction a))
      \<and> Date_now a < 10 ^ 21)"

text \<open>
  A stored pass-through value that the decoder can have left: none, or a list whose
  members all split in two.
\<close>

definition pass_through_ok :: "TraceContext \<Rightarrow> bool" where
  "pass_through_ok this =
     (case traceStateRaw this of
        Val raw \<Rightarrow> raw = [] \<or> list_all member_ok (split_str (CHR '','') raw)
      | _ \<Rightarrow> True)"

text \<open>
  The coercions of the round trip. A priority that is present stays the number it is,
  an absent one (\<^verbatim>\<open>undefined\<close> or \<^verbatim>\<open>null\<close>) comes back as \<^verbatim>\<open>null\<close>. The transaction id
  is an input of the encoder only when transaction events are enabled; otherwise its
  field is empty and comes back as \<^verbatim>\<open>null\<close>.
\<close>

definition coerced_priority :: "jsnum jsopt \<Rightarrow> jsnum jsopt" where
  "coerced_priority p = (case p of Val n \<Rightarrow> Val n | Null \<Rightarrow> Null | Undefined \<Rightarrow> Null)"

definition coerced_transaction_id :: "Agent \<Rightarrow> string jsopt" where
  "coerced_transaction_id a =
     (if transaction_events_enabled (config a) then Val (tx_id (transaction a)) else Null)"

text \<open>A fresh codec instance, as the constructor leaves it.\<close>

definition TraceContext_init :: TraceContext where
  "TraceContext_init =
     \<lparr>tracingVendors = Null, trustedParentId = Null, traceStateRaw = Null, supportability = []\<rparr>"

text \<open>
  A unit of work, the same unit of work with the priority 0, and a sending instance
  with a stored pass-through value.
\<close>

definition example_agent :: Agent where
  "example_agent =
     \<lparr>transaction = \<lparr>getTraceId = ''4bf92f3577b34da6a3ce929d0e0e4736'', tx_id = ''e8b91a159289ff74'',
                      tx_sampled = Val True, tx_priority = Val (Num (1123456 / 1000000))\<rparr>,
      config = \<lparr>trusted_account_key = ''xyz'', primary_application_id = ''2827902'',
                 account_id = ''33'', span_events_enabled = True,
                 transaction_events_enabled = True\<rparr>,
      getSegment = Val ''f067aa0ba902b7'', makeId = ''1234567890abcdef'',
      Date_now = 1569367663277\<rparr>"

definition zero_priority_agent :: Agent where
  "zero_priority_agent =
     example_agent\<lparr>transaction := (transaction example_agent)\<lparr>tx_priority := Val (Num 0)\<rparr>\<rparr>"

definition example_sender :: TraceContext where
  "example_sender = TraceContext_init\<lparr>traceStateRaw := Val ''other=1,another=2''\<rparr>"

section \<open>Properties\<close>

subsection \<open>Evaluation rules\<close>

lemmas rgx_defs = VERSION_VALID_RGX_def TRACEID_VALID_RGX_def PARENTID_VALID_RGX_def
  FLAGS_VALID_RGX_def hex_rgx_def lower_hex_def

lemmas number_defs = parseInt_def parseFloat_def trimStart_def is_space_def is_digit_def
  is_radix_digit_def digit_val_def digits_val_def exponent_part_def scale10_def

lemmas intrinsics_defs = validateAndParseIntrinsics_def validateIntrinsics_def parseIntrinsics_def
  extractTraceStateIntrinsics_def nullable_at_def empty_to_null_def conv_int_def conv_sampled_def
  conv_priority_def intrinsicInvalidations_def optional_isNaN_def PARENT_TYPES_at_def
  PARENT_TYPES_def truthy_str_def at_index_def

lemmas traceparent_defs = validateAndParseTraceParentHeader_def at_index_def str_match_def
  and_also_def W3C_TRACEPARENT_VERSION_def traceParentInfo_init_def

subsection \<open>Splitting and joining\<close>

lemma split_str_not_Nil [simp]: "split_str c s \<noteq> []"
  by (induction s) (auto split: list.splits)

lemma split_str_no_sep: "c \<notin> set s \<Longrightarrow> split_str c s = [s]"
  by (induction s) auto

lemma split_str_append: "split_str c (a @ c # b) = split_str c a @ split_str c b"
  by (induction a) (auto split: list.splits)

lemma join_split_str: "join_str [c] (split_str c s) = s"
proof (induction s)
  case Nil
  show ?case by simp
next
  case (Cons x xs)
  obtain y ys where sp: "split_str c xs = y # ys"
    by (cases "split_str c xs") auto
  with Cons show ?case
    by (cases ys) auto
qed

lemma split_join_str:
  "xs \<noteq> [] \<Longrightarrow> \<forall>x\<in>set xs. c \<notin> set x \<Longrightarrow> split_str c (join_str [c] xs) = xs"
proof (induction xs)
  case Nil
  then show ?case by simp
next
  case (Cons x xs)
  show ?case
  proof (cases xs)
    case Nil
    with Cons.prems show ?thesis by (simp add: split_str_no_sep)
  next
    case (Cons y ys)
    with Cons.IH Cons.prems have "split_str c (join_str [c] xs) = xs" by simp
    with Cons Cons.prems show ?thesis
      using split_str_append[of c x "join_str [c] xs"] by (simp add: split_str_no_sep)
  qed
qed

lemma hd_split_str: "hd (split_str c s) = takeWhile (\<lambda>x. x \<noteq> c) s"
  by (induction s) (auto split: list.splits)

lemma length_split_str: "length (split_str c s) = Suc (length (filter (\<lambda>x. x = c) s))"
  by (induction s) (auto split: list.splits)

lemma split_str_two:
  assumes "length (split_str c s) = 2"
  shows "split_str c s = [takeWhile (\<lambda>x. x \<noteq> c) s, tl (dropWhile (\<lambda>x. x \<noteq> c) s)]"
  using assms
proof (induction s)
  case Nil
  then show ?case by simp
next
  case (Cons x xs)
  show ?case
  proof (cases "x = c")
    case True
    with Cons.prems have "length (split_str c xs) = 1" by simp
    then have "c \<notin> set xs" by (auto simp: length_split_str filter_empty_conv)
    then show ?thesis using True by (simp add: split_str_no_sep)
  next
    case False
    with Cons.prems have "length (split_str c xs) = 2" by (auto split: list.splits)
    from Cons.IH[OF this] False show ?thesis by simp
  qed
qed

subsection \<open>The traceparent parser\<close>

lemma example_traceparent:
  "validateAndParseTraceParentHeader ''00-4bf92f3577b34da6a3ce929d0e0e4736-00f067aa0ba902b7-01'' =
   Inr \<lparr>tpi_entryValid = True, tpi_version = Val ''00'',
        tpi_traceId = Val ''4bf92f3577b34da6a3ce929d0e0e4736'',
        tpi_parentId = Val ''00f067aa0ba902b7'', tpi_flags = Val ''01''\<rparr>"
  by (simp add: traceparent_defs rgx_defs)

lemma traceid_rgx_rejects:
  "all_zero t \<or> \<not> hex_digits 32 t \<Longrightarrow> \<not> TRACEID_VALID_RGX t"
  by (auto simp: TRACEID_VALID_RGX_def hex_rgx_def all_zero_def hex_digits_def)

lemma parentid_rgx_rejects:
  "all_zero t \<or> \<not> hex_digits 16 t \<Longrightarrow> \<not> PARENTID_VALID_RGX t"
  by (auto simp: PARENTID_VALID_RGX_def hex_rgx_def all_zero_def hex_digits_def)

lemma version_rgx_rejects_ff: "\<not> VERSION_VALID_RGX ''ff''"
  by (simp add: VERSION_VALID_RGX_def hex_rgx_def)

lemma traceparent_rejected:
  assumes "at_index (split_str (CHR ''-'') tp) 0 = Val ''ff''
     \<or> (\<exists>t. at_index (split_str (CHR ''-'') tp) 1 = Val t \<and> (all_zero t \<or> \<not> hex_digits 32 t))
     \<or> (\<exists>q. at_index (split_str (CHR ''-'') tp) 2 = Val q \<and> (all_zero q \<or> \<not> hex_digits 16 q))"
  shows "validateAndParseTraceParentHeader tp = Inr traceParentInfo_init"
proof -
  define parts where "parts = split_str (CHR ''-'') tp"
  have ne: "parts \<noteq> []" by (simp add: parts_def)
  then obtain v where v: "at_index parts 0 = Val v"
    by (cases parts) (auto simp: at_index_def)
  let ?chain = "and_also (str_match (at_index parts 0) VERSION_VALID_RGX)
                   (and_also (str_match (at_index parts 1) TRACEID_VALID_RGX)
                     (and_also (str_match (at_index parts 2) PARENTID_VALID_RGX)
                       (str_match (at_index parts 3) FLAGS_VALID_RGX)))"
  have h: "at_index parts 0 = Val ''ff''
     \<or> (\<exists>t. at_index parts 1 = Val t \<and> (all_zero t \<or> \<not> hex_digits 32 t))
     \<or> (\<exists>q. at_index parts 2 = Val q \<and> (all_zero q \<or> \<not> hex_digits 16 q))"
    using assms by (simp add: parts_def)
  from h consider
      (version) "at_index parts 0 = Val ''ff''"
    | (traceId) t where "at_index parts 1 = Val t" "all_zero t \<or> \<not> hex_digits 32 t"
    | (parentId) q where "at_index parts 2 = Val q" "all_zero q \<or> \<not> hex_digits 16 q"
    by blast
  then have chain: "?chain = Inr False"
  proof cases
    case version
    then show ?thesis
      by (simp add: str_match_def version_rgx_rejects_ff and_also_def)
  next
    case traceId
    with traceid_rgx_rejects[of t] v show ?thesis
      by (simp add: str_match_def and_also_def)
  next
    case parentId
    then have "2 < length parts" by (auto simp: at_index_def split: if_splits)
    then obtain t where t: "at_index parts 1 = Val t" by (auto simp: at_index_def)
    with parentid_rgx_rejects[of q] parentId v show ?thesis
      by (simp add: str_match_def and_also_def)
  qed
  show ?thesis
    unfolding validateAndParseTraceParentHeader_def Let_def parts_def[symmetric] chain
    by (simp add: traceParentInfo_init_def)
qed

text \<open>
  C1 (the decode path returns a structured result for every pair of strings and never
  raises). The code does not do this. A traceparent whose version field passes the
  version pattern but is not \<^verbatim>\<open>00\<close>, and which has fewer than four fields, gets past
  the field-count test; the next field is \<^verbatim>\<open>undefined\<close>, and calling \<^verbatim>\<open>match\<close> on it
  raises a \<^verbatim>\<open>TypeError\<close>, in the parser and so in the entry point. The traceparent
  \<^verbatim>\<open>01\<close> is such an input, whatever the tracestate.
\<close>

theorem short_traceparent_of_other_version_raises:
  "validateAndParseTraceParentHeader ''01'' = Inl TypeError
   \<and> acceptTraceContextPayload trustedKey now this ''01'' ts = Inl TypeError"
  by (simp add: acceptTraceContextPayload_def traceparent_defs rgx_defs)

text \<open>
  C4: a traceparent whose version field is \<^verbatim>\<open>ff\<close>, or whose trace id field is all
  zeros or is not 32 hexadecimal digits, or whose parent id field is all zeros or is not
  16 hexadecimal digits, is not accepted, whatever the other fields, the tracestate, the
  trusted key and the state of the instance are. The digits are those of the code's
  class \<^verbatim>\<open>[a-f0-9]\<close>, so a field with an upper-case digit is refused as well.
\<close>

theorem malformed_ids_rejected:
  assumes "at_index (split_str (CHR ''-'') tp) 0 = Val ''ff''
     \<or> (\<exists>t. at_index (split_str (CHR ''-'') tp) 1 = Val t \<and> (all_zero t \<or> \<not> hex_digits 32 t))
     \<or> (\<exists>q. at_index (split_str (CHR ''-'') tp) 2 = Val q \<and> (all_zero q \<or> \<not> hex_digits 16 q))"
  shows "\<exists>this' d. acceptTraceContextPayload trustedKey now this tp ts = Inr (this', d)
           \<and> \<not> acceptedTraceparent d"
  unfolding acceptTraceContextPayload_def traceparent_rejected[OF assms]
  by (simp add: traceContextData_init_def traceParentInfo_init_def)

theorem malformed_ids_rejected_witness:
  "(at_index (split_str (CHR ''-'') ''ff-4bf92f3577b34da6a3ce929d0e0e4736-00f067aa0ba902b7-01'') 0
      = Val ''ff''
    \<and> (\<exists>this' d. acceptTraceContextPayload ''xyz'' 0 TraceContext_init
       ''ff-4bf92f3577b34da6a3ce929d0e0e4736-00f067aa0ba902b7-01'' [] = Inr (this', d)
       \<and> \<not> acceptedTraceparent d))
   \<and> (all_zero ''00000000000000000000000000000000''
    \<and> (\<exists>this' d. acceptTraceContextPayload ''xyz'' 0 TraceContext_init
       ''00-00000000000000000000000000000000-00f067aa0ba902b7-01'' [] = Inr (this', d)
       \<and> \<not> acceptedTraceparent d))
   \<and> (\<not> hex_digits 16 ''00f067aa0ba902''
    \<and> (\<exists>this' d. acceptTraceContextPayload ''xyz'' 0 TraceContext_init
       ''00-4bf92f3577b34da6a3ce929d0e0e4736-00f067aa0ba902-01'' [] = Inr (this', d)
       \<and> \<not> acceptedTraceparent d))"
proof (intro conjI)
  show "at_index (split_str (CHR ''-'') ''ff-4bf92f3577b34da6a3ce929d0e0e4736-00f067aa0ba902b7-01'') 0
      = Val ''ff''"
    by (simp add: at_index_def)
  show "all_zero ''00000000000000000000000000000000''"
    by (simp add: all_zero_def)
  show "\<not> hex_digits 16 ''00f067aa0ba902''"
    by (simp add: hex_digits_def)
  show "\<exists>this' d. acceptTraceContextPayload ''xyz'' 0 TraceContext_init
       ''ff-4bf92f3577b34da6a3ce929d0e0e4736-00f067aa0ba902b7-01'' [] = Inr (this', d)
       \<and> \<not> acceptedTraceparent d"
    by (rule malformed_ids_rejected) (simp add: at_index_def)
  show "\<exists>this' d. acceptTraceContextPayload ''xyz'' 0 TraceContext_init
       ''00-00000000000000000000000000000000-00f067aa0ba902b7-01'' [] = Inr (this', d)
       \<and> \<not> acceptedTraceparent d"
    by (rule malformed_ids_rejected) (simp add: at_index_def all_zero_def)
  show "\<exists>this' d. acceptTraceContextPayload ''xyz'' 0 TraceContext_init
       ''00-4bf92f3577b34da6a3ce929d0e0e4736-00f067aa0ba902-01'' [] = Inr (this', d)
       \<and> \<not> acceptedTraceparent d"
    by (rule malformed_ids_rejected) (simp add: at_index_def hex_digits_def)
qed

subsection \<open>The worked example\<close>

lemma example_intrinsics:
  "validateAndParseIntrinsics ''0-0-33-2827902-7d3efb1b173fecfa-e8b91a159289ff74-1-1.123456-1569367663277'' =
   \<lparr>i_version = Num 0, i_parentType = Val ''App'', i_accountId = Val ''33'',
    i_appId = Val ''2827902'', i_spanId = Val ''7d3efb1b173fecfa'',
    i_transactionId = Val ''e8b91a159289ff74'', i_sampled = True,
    i_priority = Val (Num (1123456 / 1000000)), i_timestamp = Num 1569367663277,
    i_entryValid = Val True, i_entryInvalidReason = Undefined\<rparr>"
  by (simp add: intrinsics_defs number_defs)

lemma example_tracestate:
  "validateAndParseTraceStateHeader ''xyz''
     ''xyz@nr=0-0-33-2827902-7d3efb1b173fecfa-e8b91a159289ff74-1-1.123456-1569367663277'' =
   Inr \<lparr>entryFound = True, tsd_entryValid = Val True, entryInvalidReason = Undefined,
        traceStateValid = True,
        tsd_intrinsics = Val \<lparr>i_version = Num 0, i_parentType = Val ''App'', i_accountId = Val ''33'',
          i_appId = Val ''2827902'', i_spanId = Val ''7d3efb1b173fecfa'',
          i_transactionId = Val ''e8b91a159289ff74'', i_sampled = True,
          i_priority = Val (Num (1123456 / 1000000)), i_timestamp = Num 1569367663277,
          i_entryValid = Undefined, i_entryInvalidReason = Undefined\<rparr>,
        newTraceState = Val [], vendors = []\<rparr>"
proof -
  have sp: "split_str (CHR '','') ''xyz@nr=0-0-33-2827902-7d3efb1b173fecfa-e8b91a159289ff74-1-1.123456-1569367663277''
     = [''xyz@nr=0-0-33-2827902-7d3efb1b173fecfa-e8b91a159289ff74-1-1.123456-1569367663277'']"
    by simp
  have eq: "split_str (CHR ''='') ''xyz@nr=0-0-33-2827902-7d3efb1b173fecfa-e8b91a159289ff74-1-1.123456-1569367663277''
     = [''xyz@nr'', ''0-0-33-2827902-7d3efb1b173fecfa-e8b91a159289ff74-1-1.123456-1569367663277'']"
    by simp
  show ?thesis
    unfolding validateAndParseTraceStateHeader_def sp
    by (simp add: member_key_def member_ok_def eq at_index_def splice1_def example_intrinsics)
qed

text \<open>
  C3: the example of the specification. With the trusted key \<^verbatim>\<open>xyz\<close>, at any time and
  from any state of the instance, the two header values decode to the trace id, parent
  span id, parent type \<^verbatim>\<open>App\<close>, account id, application id, transaction id, sampled
  flag and priority that the specification lists, and the tracestate is accepted. The
  priority is the number \<open>1.123456\<close>.
\<close>

theorem example_end_to_end:
  "\<exists>this' d.
     acceptTraceContextPayload ''xyz'' now this
       ''00-4bf92f3577b34da6a3ce929d0e0e4736-00f067aa0ba902b7-01''
       ''xyz@nr=0-0-33-2827902-7d3efb1b173fecfa-e8b91a159289ff74-1-1.123456-1569367663277''
       = Inr (this', d)
     \<and> traceId d = Val ''4bf92f3577b34da6a3ce929d0e0e4736''
     \<and> parentSpanId d = Val ''00f067aa0ba902b7''
     \<and> parentType d = Val ''App''
     \<and> accountId d = Val ''33''
     \<and> appId d = Val ''2827902''
     \<and> transactionId d = Val ''e8b91a159289ff74''
     \<and> sampled d = Val True
     \<and> priority d = Val (Num (1123456 / 1000000))
     \<and> acceptedTracestate d"
  unfolding acceptTraceContextPayload_def example_traceparent example_tracestate
  by (simp add: traceContextData_init_def)

subsection \<open>The tracestate parser and the entry point, case by case\<close>

lemma member_split_ok:
  "member_ok lm \<Longrightarrow> split_str (CHR ''='') lm = [key_of lm, value_of lm]"
  unfolding member_ok_def key_of_def value_of_def by (rule split_str_two)

lemma member_key_ok: "member_ok lm \<Longrightarrow> member_key lm = Val (key_of lm)"
  by (simp add: member_key_def member_split_ok at_index_def)

lemma member_value_ok:
  "member_ok lm \<Longrightarrow> at_index (split_str (CHR ''='') lm) (Suc 0) = Val (value_of lm)"
  by (simp add: member_split_ok at_index_def)

lemma map_member_key_ok:
  "list_all member_ok lms \<Longrightarrow> map member_key lms = map Val (map key_of lms)"
  by (induction lms) (auto simp: member_key_ok)

lemma findIndex_keyed:
  assumes "list_all member_ok lms"
  shows "case findIndex (\<lambda>v. v = Val k) (map member_key lms) of
           None \<Rightarrow> find_vendor_value k lms = None \<and> remove_first_keyed k lms = lms
                   \<and> remove1 k (map key_of lms) = map key_of lms
         | Some i \<Rightarrow> i < length lms \<and> find_vendor_value k lms = Some (value_of (lms ! i))
                   \<and> remove_first_keyed k lms = splice1 i lms
                   \<and> splice1 i (map member_key lms) = map Val (remove1 k (map key_of lms))"
  using assms
proof (induction lms)
  case Nil
  then show ?case by simp
next
  case (Cons lm lms)
  then have ok: "member_ok lm" and oks: "list_all member_ok lms" by simp_all
  show ?case
  proof (cases "key_of lm = k")
    case True
    then show ?thesis
      using ok oks by (simp add: member_key_ok splice1_def map_member_key_ok)
  next
    case False
    with Cons.IH[OF oks] ok show ?thesis
      by (auto simp: member_key_ok splice1_def split: option.splits)
  qed
qed

lemma tracestate_parser_valid:
  assumes "list_all member_ok (split_str (CHR '','') ts)"
  shows "validateAndParseTraceStateHeader tk ts = Inr (tsd_spec (tk @ ''@nr'') (split_str (CHR '','') ts))"
proof -
  define lms where "lms = split_str (CHR '','') ts"
  have oks: "list_all member_ok lms" using assms by (simp add: lms_def)
  show ?thesis
  proof (cases "findIndex (\<lambda>v. v = Val (tk @ ''@nr'')) (map member_key lms)")
    case None
    with findIndex_keyed[OF oks, of "tk @ ''@nr''"] oks show ?thesis
      unfolding validateAndParseTraceStateHeader_def tsd_spec_def lms_def[symmetric] Let_def
      by (simp add: map_member_key_ok)
  next
    case (Some i)
    with findIndex_keyed[OF oks, of "tk @ ''@nr''"]
    have i: "i < length lms" and v: "find_vendor_value (tk @ ''@nr'') lms = Some (value_of (lms ! i))"
      and r: "remove_first_keyed (tk @ ''@nr'') lms = splice1 i lms"
      and s: "splice1 i (map member_key lms) = map Val (remove1 (tk @ ''@nr'') (map key_of lms))"
      by simp_all
    from oks i have "member_ok (lms ! i)" by (simp add: list_all_length)
    then have val: "at_index (split_str (CHR ''='') (lms ! i)) (Suc 0) = Val (value_of (lms ! i))"
      by (rule member_value_ok)
    have at: "at_index lms i = Val (lms ! i)" using i by (simp add: at_index_def)
    show ?thesis
      unfolding validateAndParseTraceStateHeader_def tsd_spec_def lms_def[symmetric] Let_def
      using oks by (simp add: Some at val v r s)
  qed
qed

lemma tracestate_parser_invalid:
  assumes "\<not> list_all member_ok (split_str (CHR '','') ts)"
  shows "validateAndParseTraceStateHeader tk ts =
     Inr \<lparr>entryFound = False, tsd_entryValid = Undefined, entryInvalidReason = Undefined,
          traceStateValid = False, tsd_intrinsics = Undefined, newTraceState = Undefined,
          vendors = map member_key (split_str (CHR '','') ts)\<rparr>"
  using assms by (simp add: validateAndParseTraceStateHeader_def)


lemma join_opt_Val: "join_opt sep (map Val xs) = join_str sep xs"
  by (simp add: join_opt_def comp_def)

lemma parse_empty_traceparent: "validateAndParseTraceParentHeader [] = Inr traceParentInfo_init"
  by (simp add: validateAndParseTraceParentHeader_def)

lemma accepted_parent_nonempty:
  "validateAndParseTraceParentHeader tp = Inr p \<Longrightarrow> tpi_entryValid p \<Longrightarrow> tp \<noteq> []"
  by (auto simp: parse_empty_traceparent traceParentInfo_init_def)

lemma accept_traceparent_only:
  assumes "validateAndParseTraceParentHeader tp = Inr p" "tpi_entryValid p"
  shows "acceptTraceContextPayload tk now this tp [] = Inr (this, accepted_parent p)"
  using assms accepted_parent_nonempty[OF assms]
  by (simp add: acceptTraceContextPayload_def accepted_parent_def)

lemma accept_invalid_tracestate:
  assumes "validateAndParseTraceParentHeader tp = Inr p" "tpi_entryValid p"
    and "\<not> list_all member_ok (split_str (CHR '','') ts)"
  shows "acceptTraceContextPayload tk now this tp ts = Inr (this, accepted_parent p)"
  using assms(1,2) accepted_parent_nonempty[OF assms(1,2)]
  by (simp add: acceptTraceContextPayload_def accepted_parent_def Let_def
      tracestate_parser_invalid[OF assms(3)])

lemma accept_no_entry:
  assumes "validateAndParseTraceParentHeader tp = Inr p" "tpi_entryValid p"
    and "ts \<noteq> []" "list_all member_ok (split_str (CHR '','') ts)"
    and "find_vendor_value (tk @ ''@nr'') (split_str (CHR '','') ts) = None"
  shows "acceptTraceContextPayload tk now this tp ts =
     Inr (this\<lparr>traceStateRaw := Val (join_str '','' (split_str (CHR '','') ts)),
               tracingVendors := Val (join_str '','' (map key_of (split_str (CHR '','') ts)))\<rparr>,
          accepted_parent p)"
  using assms(1,2,3,5) accepted_parent_nonempty[OF assms(1,2)]
  by (simp add: acceptTraceContextPayload_def accepted_parent_def
      tracestate_parser_valid[OF assms(4)] tsd_spec_def join_opt_def comp_def Let_def)

lemma accept_entry_invalid:
  assumes "validateAndParseTraceParentHeader tp = Inr p" "tpi_entryValid p"
    and "ts \<noteq> []" "list_all member_ok (split_str (CHR '','') ts)"
    and "find_vendor_value (tk @ ''@nr'') (split_str (CHR '','') ts) = Some v"
    and "i_entryValid (validateAndParseIntrinsics v) \<noteq> Val True"
  shows "acceptTraceContextPayload tk now this tp ts =
     Inr (recordSupportability ''TraceContext/TraceState/InvalidNrEntry''
            (this\<lparr>traceStateRaw :=
                     Val (join_str '','' (remove_first_keyed (tk @ ''@nr'') (split_str (CHR '','') ts))),
                  tracingVendors :=
                     Val (join_str '','' (remove1 (tk @ ''@nr'') (map key_of (split_str (CHR '','') ts))))\<rparr>),
          accepted_parent p)"
  using assms(1,2,3,5,6) accepted_parent_nonempty[OF assms(1,2)]
  by (simp add: acceptTraceContextPayload_def accepted_parent_def
      tracestate_parser_valid[OF assms(4)] tsd_spec_def join_opt_def comp_def Let_def)

lemma accept_entry_valid:
  assumes "validateAndParseTraceParentHeader tp = Inr p" "tpi_entryValid p"
    and "ts \<noteq> []" "list_all member_ok (split_str (CHR '','') ts)"
    and "find_vendor_value (tk @ ''@nr'') (split_str (CHR '','') ts) = Some v"
    and "i_entryValid (validateAndParseIntrinsics v) = Val True"
  shows "acceptTraceContextPayload tk now this tp ts =
     Inr (recordSupportability ''TraceContext/Accept/Success''
            (this\<lparr>traceStateRaw :=
                     Val (join_str '','' (remove_first_keyed (tk @ ''@nr'') (split_str (CHR '','') ts))),
                  tracingVendors :=
                     Val (join_str '','' (remove1 (tk @ ''@nr'') (map key_of (split_str (CHR '','') ts)))),
                  trustedParentId := i_spanId (validateAndParseIntrinsics v)\<rparr>),
          (accepted_parent p)\<lparr>acceptedTracestate := True,
             parentType := i_parentType (validateAndParseIntrinsics v),
             accountId := i_accountId (validateAndParseIntrinsics v),
             appId := i_appId (validateAndParseIntrinsics v),
             transactionId := i_transactionId (validateAndParseIntrinsics v),
             sampled := Val (i_sampled (validateAndParseIntrinsics v)),
             priority := i_priority (validateAndParseIntrinsics v),
             transportDuration :=
               Val (Math_max0 (js_div_pos (js_minus (Num (of_nat now))
                      (i_timestamp (validateAndParseIntrinsics v))) 1000))\<rparr>)"
  using assms(1,2,3,5,6) accepted_parent_nonempty[OF assms(1,2)]
  by (simp add: acceptTraceContextPayload_def accepted_parent_def
      tracestate_parser_valid[OF assms(4)] tsd_spec_def join_opt_def comp_def Let_def recordSupportability_def)

lemma accepted_tracestate_inversion:
  assumes "acceptTraceContextPayload tk now this tp ts = Inr (this', d)" "acceptedTracestate d"
  shows "\<exists>p v. validateAndParseTraceParentHeader tp = Inr p \<and> tpi_entryValid p \<and> ts \<noteq> []
           \<and> list_all member_ok (split_str (CHR '','') ts)
           \<and> find_vendor_value (tk @ ''@nr'') (split_str (CHR '','') ts) = Some v
           \<and> i_entryValid (validateAndParseIntrinsics v) = Val True"
proof -
  from assms have ne: "tp \<noteq> []"
    by (auto simp: acceptTraceContextPayload_def traceContextData_init_def)
  from assms ne obtain p where p: "validateAndParseTraceParentHeader tp = Inr p"
    by (cases "validateAndParseTraceParentHeader tp") (auto simp: acceptTraceContextPayload_def)
  from assms ne p have pv: "tpi_entryValid p"
    by (auto simp: acceptTraceContextPayload_def traceContextData_init_def split: if_splits)
  from assms have ts: "ts \<noteq> []"
    using accept_traceparent_only[OF p pv, of tk now this]
    by (auto simp: accepted_parent_def traceContextData_init_def)
  have oks: "list_all member_ok (split_str (CHR '','') ts)"
  proof (rule ccontr)
    assume "\<not> list_all member_ok (split_str (CHR '','') ts)"
    from accept_invalid_tracestate[OF p pv this, of tk now this] assms show False
      by (auto simp: accepted_parent_def traceContextData_init_def)
  qed
  show ?thesis
  proof (cases "find_vendor_value (tk @ ''@nr'') (split_str (CHR '','') ts)")
    case None
    from accept_no_entry[OF p pv ts oks None, of now this] assms show ?thesis
      by (auto simp: accepted_parent_def traceContextData_init_def)
  next
    case (Some v)
    show ?thesis
    proof (cases "i_entryValid (validateAndParseIntrinsics v) = Val True")
      case True
      with p pv ts oks Some show ?thesis by blast
    next
      case False
      from accept_entry_invalid[OF p pv ts oks Some False, of now this] assms show ?thesis
        by (auto simp: accepted_parent_def traceContextData_init_def)
    qed
  qed
qed

subsection \<open>The vendor entry, the pass-through value and the vendors\<close>

lemma invalidation_loop_valid:
  "fst (invalidation_loop xs (ev, r)) = (ev \<and> list_all (\<lambda>e. \<not> snd e) xs)"
  by (induction xs arbitrary: ev r) (auto split: if_splits)

lemma invalidation_loop_reason:
  "snd (invalidation_loop xs (ev, r)) =
     (if filter snd xs = [] then r
      else Val (fst (last (filter snd xs)) @ '' failed invalidation test''))"
  by (induction xs arbitrary: ev r) auto

lemma nullable_at_Val:
  "at_index xs i = Val t \<Longrightarrow> nullable_at xs i = (if t = [] then Null else Val t)"
  by (auto simp: at_index_def nullable_at_def empty_to_null_def split: if_splits)

lemma entryValid_eq:
  "i_entryValid (validateIntrinsics x) =
     Val (truthy_str (PARENT_TYPES_at (p_parentType x))
          \<and> list_all (\<lambda>e. \<not> snd e) (intrinsicInvalidations x))"
  using invalidation_loop_valid[of "intrinsicInvalidations x" True Undefined]
  by (auto simp: validateIntrinsics_def Let_def split: prod.splits)

lemma timestamp_NaN_invalid:
  assumes "at_index (split_str (CHR ''-'') v) 8 = Val t" "t \<noteq> []" "parseInt t 0 = NaN"
  shows "i_entryValid (validateAndParseIntrinsics v) = Val False"
proof -
  have "p_timestamp (parseIntrinsics v) = NaN"
    using assms
    by (simp add: parseIntrinsics_def extractTraceStateIntrinsics_def nullable_at_Val conv_int_def Let_def)
  then show ?thesis
    by (simp add: validateAndParseIntrinsics_def entryValid_eq intrinsicInvalidations_def)
qed

lemma sampled_absent_false:
  assumes "at_index (split_str (CHR ''-'') v) 6 = Val []"
  shows "i_sampled (validateAndParseIntrinsics v) = False"
proof -
  have "p_sampled (parseIntrinsics v) = Null"
    using assms
    by (simp add: parseIntrinsics_def extractTraceStateIntrinsics_def nullable_at_Val conv_sampled_def Let_def)
  then show ?thesis
    by (simp add: validateAndParseIntrinsics_def validateIntrinsics_def Let_def split: prod.splits)
qed

lemma find_None_remove: "find_vendor_value k lms = None \<Longrightarrow> remove_first_keyed k lms = lms"
  by (induction lms) (auto split: if_splits)

lemma find_None_remove1:
  "find_vendor_value k lms = None \<Longrightarrow> remove1 k (map key_of lms) = map key_of lms"
  by (induction lms) (auto split: if_splits)

lemma member_ok_nonempty: "list_all member_ok (split_str (CHR '','') ts) \<Longrightarrow> ts \<noteq> []"
  by (auto simp: member_ok_def)

lemma accept_valid_tracestate_stores:
  assumes "validateAndParseTraceParentHeader tp = Inr p" "tpi_entryValid p"
    and "list_all member_ok (split_str (CHR '','') ts)"
  shows "\<exists>this' d. acceptTraceContextPayload tk now this tp ts = Inr (this', d)
     \<and> traceStateRaw this' =
         Val (join_str '','' (remove_first_keyed (tk @ ''@nr'') (split_str (CHR '','') ts)))
     \<and> tracingVendors this' =
         Val (join_str '','' (remove1 (tk @ ''@nr'') (map key_of (split_str (CHR '','') ts))))"
proof -
  note ne = member_ok_nonempty[OF assms(3)]
  show ?thesis
  proof (cases "find_vendor_value (tk @ ''@nr'') (split_str (CHR '','') ts)")
    case None
    from accept_no_entry[OF assms(1,2) ne assms(3) None, of now this]
    show ?thesis by (simp add: find_None_remove[OF None] find_None_remove1[OF None])
  next
    case (Some v)
    show ?thesis
    proof (cases "i_entryValid (validateAndParseIntrinsics v) = Val True")
      case True
      from accept_entry_valid[OF assms(1,2) ne assms(3) Some True, of now this]
      show ?thesis by (simp add: recordSupportability_def)
    next
      case False
      from accept_entry_invalid[OF assms(1,2) ne assms(3) Some False, of now this]
      show ?thesis by (simp add: recordSupportability_def)
    qed
  qed
qed


lemma split_str_head: "c \<notin> set a \<Longrightarrow> split_str c (a @ c # b) = a # split_str c b"
  by (simp add: split_str_append split_str_no_sep)

lemma key_of_pair: "CHR ''='' \<notin> set k \<Longrightarrow> key_of (k @ CHR ''='' # v) = k"
  by (simp add: key_of_def takeWhile_tail takeWhile_eq_all_conv) auto

lemma member_ok_pair:
  "CHR ''='' \<notin> set k \<Longrightarrow> CHR ''='' \<notin> set v \<Longrightarrow> member_ok (k @ CHR ''='' # v)"
  by (simp add: member_ok_def split_str_head split_str_no_sep)

lemma nr_key_not_other: "tk @ ''@nr'' \<noteq> ''other''"
proof
  assume "tk @ ''@nr'' = ''other''"
  then have "rev (tk @ ''@nr'') = rev ''other''" by (rule arg_cong)
  then show False by simp
qed

lemma pass_through_instance:
  assumes "CHR '','' \<notin> set (tk @ v)" "CHR ''='' \<notin> set (tk @ v)"
  shows "list_all member_ok (split_str (CHR '','') (''other=1,'' @ tk @ ''@nr='' @ v @ '',another=2''))
    \<and> remove_first_keyed (tk @ ''@nr'')
         (split_str (CHR '','') (''other=1,'' @ tk @ ''@nr='' @ v @ '',another=2''))
       = [''other=1'', ''another=2'']"
proof -
  let ?nr = "(tk @ ''@nr'') @ CHR ''='' # v"
  have shape: "''other=1,'' @ tk @ ''@nr='' @ v @ '',another=2''
      = ''other=1'' @ CHR '','' # (?nr @ CHR '','' # ''another=2'')"
    by simp
  have sp: "split_str (CHR '','') (''other=1,'' @ tk @ ''@nr='' @ v @ '',another=2'')
      = [''other=1'', ?nr, ''another=2'']"
  proof -
    have inner: "split_str (CHR '','') (?nr @ CHR '','' # ''another=2'')
        = ?nr # split_str (CHR '','') ''another=2''"
      by (rule split_str_head) (use assms in simp)
    have outer: "split_str (CHR '','') (''other=1'' @ CHR '','' # (?nr @ CHR '','' # ''another=2''))
        = ''other=1'' # split_str (CHR '','') (?nr @ CHR '','' # ''another=2'')"
      by (rule split_str_head) simp
    show ?thesis unfolding shape outer inner by simp
  qed
  have k: "key_of ?nr = tk @ ''@nr''" using assms by (intro key_of_pair) simp
  have ok: "member_ok ?nr" using assms by (intro member_ok_pair) simp_all
  have ok1: "member_ok ''other=1''" "member_ok ''another=2''"
    by (simp_all add: member_ok_def)
  have k1: "key_of ''other=1'' = ''other''" by (simp add: key_of_def)
  show ?thesis
    unfolding sp using k ok ok1 by (simp add: k1 nr_key_not_other[symmetric])
qed

text \<open>
  C5: when some list member of the tracestate does not split on \<^verbatim>\<open>=\<close> into exactly two
  parts, the parser marks the whole tracestate invalid and accepts nothing of it (no
  entry found, no intrinsics, no new tracestate). After an accepted traceparent the entry
  point then returns with the tracestate not accepted, the traceparent accepted with its
  trace id and parent span id, and the instance as it was: the very result that the same
  traceparent gives without any tracestate.
\<close>

theorem invalid_member_invalidates_tracestate:
  assumes "validateAndParseTraceParentHeader tp = Inr p" and "tpi_entryValid p"
    and "\<exists>lm \<in> set (split_str (CHR '','') ts). length (split_str (CHR ''='') lm) \<noteq> 2"
  shows "(\<exists>tsd. validateAndParseTraceStateHeader tk ts = Inr tsd \<and> \<not> traceStateValid tsd
            \<and> \<not> entryFound tsd \<and> tsd_entryValid tsd = Undefined
            \<and> tsd_intrinsics tsd = Undefined \<and> newTraceState tsd = Undefined)
       \<and> (\<exists>d. acceptTraceContextPayload tk now this tp ts = Inr (this, d)
            \<and> \<not> acceptedTracestate d \<and> acceptedTraceparent d
            \<and> traceId d = tpi_traceId p \<and> parentSpanId d = tpi_parentId p)
       \<and> acceptTraceContextPayload tk now this tp ts = acceptTraceContextPayload tk now this tp []"
proof -
  from assms(3) have bad: "\<not> list_all member_ok (split_str (CHR '','') ts)"
    by (auto simp: list_all_iff member_ok_def)
  show ?thesis
    by (simp add: tracestate_parser_invalid[OF bad] accept_invalid_tracestate[OF assms(1,2) bad]
        accept_traceparent_only[OF assms(1,2)] accepted_parent_def traceContextData_init_def)
qed

theorem invalid_member_invalidates_tracestate_witness:
  "(\<exists>lm \<in> set (split_str (CHR '','') ''other=1,broken''). length (split_str (CHR ''='') lm) \<noteq> 2)
   \<and> (\<exists>d. acceptTraceContextPayload ''xyz'' 0 TraceContext_init
            ''00-4bf92f3577b34da6a3ce929d0e0e4736-00f067aa0ba902b7-01'' ''other=1,broken''
          = Inr (TraceContext_init, d)
        \<and> \<not> acceptedTracestate d \<and> acceptedTraceparent d
        \<and> traceId d = Val ''4bf92f3577b34da6a3ce929d0e0e4736''
        \<and> parentSpanId d = Val ''00f067aa0ba902b7'')"
proof -
  have bad: "\<exists>lm \<in> set (split_str (CHR '','') ''other=1,broken''). length (split_str (CHR ''='') lm) \<noteq> 2"
    by simp
  have "\<exists>d. acceptTraceContextPayload ''xyz'' 0 TraceContext_init
            ''00-4bf92f3577b34da6a3ce929d0e0e4736-00f067aa0ba902b7-01'' ''other=1,broken''
          = Inr (TraceContext_init, d)
        \<and> \<not> acceptedTracestate d \<and> acceptedTraceparent d
        \<and> traceId d = tpi_traceId \<lparr>tpi_entryValid = True, tpi_version = Val ''00'',
             tpi_traceId = Val ''4bf92f3577b34da6a3ce929d0e0e4736'',
             tpi_parentId = Val ''00f067aa0ba902b7'', tpi_flags = Val ''01''\<rparr>
        \<and> parentSpanId d = tpi_parentId \<lparr>tpi_entryValid = True, tpi_version = Val ''00'',
             tpi_traceId = Val ''4bf92f3577b34da6a3ce929d0e0e4736'',
             tpi_parentId = Val ''00f067aa0ba902b7'', tpi_flags = Val ''01''\<rparr>"
    by (rule conjunct1[OF conjunct2[OF
          invalid_member_invalidates_tracestate[OF example_traceparent _ bad]]]) simp
  then show ?thesis using bad by simp
qed

text \<open>
  C6: after an accepted traceparent, the tracestate
  \<^verbatim>\<open>other=1,<key>@nr=<value>,another=2\<close> (key and value free of \<^verbatim>\<open>,\<close> and \<^verbatim>\<open>=\<close>)
  leaves \<^verbatim>\<open>other=1,another=2\<close> as the stored pass-through value; and for every tracestate
  whose members all split in two, the stored value is the members joined by commas in
  their order, without the first member whose key is \<^verbatim>\<open><key>@nr\<close>.
\<close>

theorem vendor_entry_removed_from_pass_through:
  assumes "validateAndParseTraceParentHeader tp = Inr p" and "tpi_entryValid p"
  shows "(CHR '','' \<notin> set (tk @ v) \<and> CHR ''='' \<notin> set (tk @ v) \<longrightarrow>
           (\<exists>this' d. acceptTraceContextPayload tk now this tp
                         (''other=1,'' @ tk @ ''@nr='' @ v @ '',another=2'') = Inr (this', d)
              \<and> traceStateRaw this' = Val ''other=1,another=2''))
       \<and> (list_all member_ok (split_str (CHR '','') ts) \<longrightarrow>
           (\<exists>this' d. acceptTraceContextPayload tk now this tp ts = Inr (this', d)
              \<and> traceStateRaw this' =
                  Val (join_str '','' (remove_first_keyed (tk @ ''@nr'') (split_str (CHR '','') ts)))))"
proof (intro conjI impI)
  assume "CHR '','' \<notin> set (tk @ v) \<and> CHR ''='' \<notin> set (tk @ v)"
  then have inst: "list_all member_ok (split_str (CHR '','') (''other=1,'' @ tk @ ''@nr='' @ v @ '',another=2''))"
    and rem: "remove_first_keyed (tk @ ''@nr'')
         (split_str (CHR '','') (''other=1,'' @ tk @ ''@nr='' @ v @ '',another=2''))
       = [''other=1'', ''another=2'']"
    using pass_through_instance[of tk v] by simp_all
  from accept_valid_tracestate_stores[OF assms inst, of tk now this]
  show "\<exists>this' d. acceptTraceContextPayload tk now this tp
                         (''other=1,'' @ tk @ ''@nr='' @ v @ '',another=2'') = Inr (this', d)
              \<and> traceStateRaw this' = Val ''other=1,another=2''"
    unfolding rem by auto
next
  assume "list_all member_ok (split_str (CHR '','') ts)"
  from accept_valid_tracestate_stores[OF assms this, of tk now this]
  show "\<exists>this' d. acceptTraceContextPayload tk now this tp ts = Inr (this', d)
              \<and> traceStateRaw this' =
                  Val (join_str '','' (remove_first_keyed (tk @ ''@nr'') (split_str (CHR '','') ts)))"
    by auto
qed

theorem vendor_entry_removed_from_pass_through_witness:
  "(\<exists>this' d. acceptTraceContextPayload ''xyz'' 0 TraceContext_init
       ''00-4bf92f3577b34da6a3ce929d0e0e4736-00f067aa0ba902b7-01''
       ''other=1,xyz@nr=0-0-33-2827902-7d3efb1b173fecfa-e8b91a159289ff74-1-1.123456-1569367663277,another=2''
         = Inr (this', d)
      \<and> traceStateRaw this' = Val ''other=1,another=2'')
   \<and> list_all member_ok (split_str (CHR '','') ''a=1,xyz@nr=2,b=3,xyz@nr=4'')
   \<and> (\<exists>this' d. acceptTraceContextPayload ''xyz'' 0 TraceContext_init
       ''00-4bf92f3577b34da6a3ce929d0e0e4736-00f067aa0ba902b7-01'' ''a=1,xyz@nr=2,b=3,xyz@nr=4''
         = Inr (this', d)
      \<and> traceStateRaw this' = Val ''a=1,b=3,xyz@nr=4'')"
proof -
  have ok: "list_all member_ok (split_str (CHR '','') ''a=1,xyz@nr=2,b=3,xyz@nr=4'')"
    by (simp add: member_ok_def)
  have rem: "join_str '','' (remove_first_keyed (''xyz'' @ ''@nr'')
       (split_str (CHR '','') ''a=1,xyz@nr=2,b=3,xyz@nr=4'')) = ''a=1,b=3,xyz@nr=4''"
    by (simp add: key_of_def)
  from vendor_entry_removed_from_pass_through[OF example_traceparent, of "''xyz''"
      "''0-0-33-2827902-7d3efb1b173fecfa-e8b91a159289ff74-1-1.123456-1569367663277''"
      0 TraceContext_init "''a=1,xyz@nr=2,b=3,xyz@nr=4''"]
  show ?thesis using ok unfolding rem by simp
qed


lemma digit_led_timestamp_intrinsics:
  "validateAndParseIntrinsics ''0-0-33-2827902-7d3efb1b173fecfa-e8b91a159289ff74-1-1.123456-12abc'' =
   \<lparr>i_version = Num 0, i_parentType = Val ''App'', i_accountId = Val ''33'',
    i_appId = Val ''2827902'', i_spanId = Val ''7d3efb1b173fecfa'',
    i_transactionId = Val ''e8b91a159289ff74'', i_sampled = True,
    i_priority = Val (Num (1123456 / 1000000)), i_timestamp = Num 12,
    i_entryValid = Val True, i_entryInvalidReason = Undefined\<rparr>"
  by (simp add: intrinsics_defs number_defs)

text \<open>
  C7 as stated (a timestamp field that is present but not numeric makes the tracestate
  not accepted) does not hold: the timestamp is converted by \<^verbatim>\<open>parseInt\<close>, which reads
  the leading digits and ignores the rest. The timestamp \<^verbatim>\<open>12abc\<close> is read as 12, the
  entry is valid and the tracestate is accepted.
\<close>

theorem digit_led_timestamp_accepted:
  "at_index (split_str (CHR ''-'')
      ''0-0-33-2827902-7d3efb1b173fecfa-e8b91a159289ff74-1-1.123456-12abc'') 8 = Val ''12abc''
   \<and> acceptTraceContextPayload ''xyz'' 0 TraceContext_init
        ''00-4bf92f3577b34da6a3ce929d0e0e4736-00f067aa0ba902b7-01''
        ''other=1,xyz@nr=0-0-33-2827902-7d3efb1b173fecfa-e8b91a159289ff74-1-1.123456-12abc''
       = Inr (\<lparr>tracingVendors = Val ''other'', trustedParentId = Val ''7d3efb1b173fecfa'',
               traceStateRaw = Val ''other=1'',
               supportability = [''TraceContext/Accept/Success'']\<rparr>,
              \<lparr>acceptedTraceparent = True, acceptedTracestate = True, acceptedNRTracestate = False,
               traceId = Val ''4bf92f3577b34da6a3ce929d0e0e4736'',
               parentSpanId = Val ''00f067aa0ba902b7'', parentType = Val ''App'',
               accountId = Val ''33'', appId = Val ''2827902'',
               transactionId = Val ''e8b91a159289ff74'', sampled = Val True,
               priority = Val (Num (1123456 / 1000000)), transportDuration = Val (Num 0)\<rparr>)"
proof -
  let ?ts = "''other=1,xyz@nr=0-0-33-2827902-7d3efb1b173fecfa-e8b91a159289ff74-1-1.123456-12abc''"
  let ?v = "''0-0-33-2827902-7d3efb1b173fecfa-e8b91a159289ff74-1-1.123456-12abc''"
  have field: "at_index (split_str (CHR ''-'') ?v) 8 = Val ''12abc''"
    by (simp add: at_index_def)
  have sp: "split_str (CHR '','') ?ts = [''other=1'', ''xyz@nr='' @ ?v]"
    by simp
  have ok: "list_all member_ok (split_str (CHR '','') ?ts)"
    unfolding sp by (simp add: member_ok_def)
  have fv: "find_vendor_value (''xyz'' @ ''@nr'') (split_str (CHR '','') ?ts) = Some ?v"
    unfolding sp by (simp add: key_of_def value_of_def)
  have valid: "i_entryValid (validateAndParseIntrinsics ?v) = Val True"
    by (simp add: digit_led_timestamp_intrinsics)
  have pv: "tpi_entryValid \<lparr>tpi_entryValid = True, tpi_version = Val ''00'',
        tpi_traceId = Val ''4bf92f3577b34da6a3ce929d0e0e4736'',
        tpi_parentId = Val ''00f067aa0ba902b7'', tpi_flags = Val ''01''\<rparr>"
    by simp
  have ne: "?ts \<noteq> []" by simp
  from accept_entry_valid[OF example_traceparent pv ne ok fv valid, of 0 TraceContext_init]
  have "acceptTraceContextPayload ''xyz'' 0 TraceContext_init
        ''00-4bf92f3577b34da6a3ce929d0e0e4736-00f067aa0ba902b7-01'' ?ts
       = Inr (\<lparr>tracingVendors = Val ''other'', trustedParentId = Val ''7d3efb1b173fecfa'',
               traceStateRaw = Val ''other=1'',
               supportability = [''TraceContext/Accept/Success'']\<rparr>,
              \<lparr>acceptedTraceparent = True, acceptedTracestate = True, acceptedNRTracestate = False,
               traceId = Val ''4bf92f3577b34da6a3ce929d0e0e4736'',
               parentSpanId = Val ''00f067aa0ba902b7'', parentType = Val ''App'',
               accountId = Val ''33'', appId = Val ''2827902'',
               transactionId = Val ''e8b91a159289ff74'', sampled = Val True,
               priority = Val (Num (1123456 / 1000000)), transportDuration = Val (Num 0)\<rparr>)"
    by (simp add: key_of_def digit_led_timestamp_intrinsics accepted_parent_def
        traceContextData_init_def TraceContext_init_def recordSupportability_def)
  with field show ?thesis by (intro conjI)
qed

text \<open>
  C7, amended: after an accepted traceparent, take a tracestate whose members all split
  in two and whose vendor entry (the first member with key \<^verbatim>\<open><key>@nr\<close>) has a ninth
  field that is present and from which \<^verbatim>\<open>parseInt\<close> reads no number. Then the
  tracestate is not accepted, and the pass-through value stored on the instance is the
  tracestate without the vendor entry.
\<close>

theorem malformed_timestamp_rejected_but_stripped:
  assumes "validateAndParseTraceParentHeader tp = Inr p" and "tpi_entryValid p"
    and "list_all member_ok (split_str (CHR '','') ts)"
    and "find_vendor_value (tk @ ''@nr'') (split_str (CHR '','') ts) = Some v"
    and "at_index (split_str (CHR ''-'') v) 8 = Val t" and "t \<noteq> []" and "parseInt t 0 = NaN"
  shows "\<exists>this' d. acceptTraceContextPayload tk now this tp ts = Inr (this', d)
           \<and> \<not> acceptedTracestate d
           \<and> traceStateRaw this' =
               Val (join_str '','' (remove_first_keyed (tk @ ''@nr'') (split_str (CHR '','') ts)))"
proof -
  have "i_entryValid (validateAndParseIntrinsics v) \<noteq> Val True"
    using timestamp_NaN_invalid[OF assms(5,6,7)] by simp
  from accept_entry_invalid[OF assms(1,2) member_ok_nonempty[OF assms(3)] assms(3,4) this, of now this]
  show ?thesis
    by (simp add: recordSupportability_def accepted_parent_def traceContextData_init_def)
qed

theorem malformed_timestamp_rejected_but_stripped_witness:
  "list_all member_ok (split_str (CHR '','')
       ''other=1,xyz@nr=0-0-33-2827902-7d3efb1b173fecfa-e8b91a159289ff74-1-1.123456-soon,another=2'')
   \<and> find_vendor_value (''xyz'' @ ''@nr'') (split_str (CHR '','')
       ''other=1,xyz@nr=0-0-33-2827902-7d3efb1b173fecfa-e8b91a159289ff74-1-1.123456-soon,another=2'')
       = Some ''0-0-33-2827902-7d3efb1b173fecfa-e8b91a159289ff74-1-1.123456-soon''
   \<and> at_index (split_str (CHR ''-'')
        ''0-0-33-2827902-7d3efb1b173fecfa-e8b91a159289ff74-1-1.123456-soon'') 8 = Val ''soon''
   \<and> parseInt ''soon'' 0 = NaN
   \<and> (\<exists>this' d. acceptTraceContextPayload ''xyz'' 0 TraceContext_init
         ''00-4bf92f3577b34da6a3ce929d0e0e4736-00f067aa0ba902b7-01''
         ''other=1,xyz@nr=0-0-33-2827902-7d3efb1b173fecfa-e8b91a159289ff74-1-1.123456-soon,another=2''
           = Inr (this', d)
        \<and> \<not> acceptedTracestate d
        \<and> traceStateRaw this' = Val ''other=1,another=2'')"
proof -
  let ?ts = "''other=1,xyz@nr=0-0-33-2827902-7d3efb1b173fecfa-e8b91a159289ff74-1-1.123456-soon,another=2''"
  let ?v = "''0-0-33-2827902-7d3efb1b173fecfa-e8b91a159289ff74-1-1.123456-soon''"
  have sp: "split_str (CHR '','') ?ts = [''other=1'', ''xyz@nr='' @ ?v, ''another=2'']"
    by simp
  have ok: "list_all member_ok (split_str (CHR '','') ?ts)"
    unfolding sp by (simp add: member_ok_def)
  have fv: "find_vendor_value (''xyz'' @ ''@nr'') (split_str (CHR '','') ?ts) = Some ?v"
    unfolding sp by (simp add: key_of_def value_of_def)
  have at: "at_index (split_str (CHR ''-'') ?v) 8 = Val ''soon''"
    by (simp add: at_index_def)
  have nan: "parseInt ''soon'' 0 = NaN"
    by (simp add: number_defs)
  have rem: "join_str '','' (remove_first_keyed (''xyz'' @ ''@nr'') (split_str (CHR '','') ?ts))
      = ''other=1,another=2''"
    unfolding sp by (simp add: key_of_def)
  from malformed_timestamp_rejected_but_stripped[OF example_traceparent _ ok fv at _ nan,
      of 0 TraceContext_init]
  have "\<exists>this' d. acceptTraceContextPayload ''xyz'' 0 TraceContext_init
         ''00-4bf92f3577b34da6a3ce929d0e0e4736-00f067aa0ba902b7-01'' ?ts = Inr (this', d)
        \<and> \<not> acceptedTracestate d
        \<and> traceStateRaw this' = Val ''other=1,another=2''"
    unfolding rem by simp
  with ok fv at nan show ?thesis by blast
qed

text \<open>
  C8 as stated (the vendors are all the keys seen, the matched \<^verbatim>\<open><key>@nr\<close> included)
  does not hold: for \<^verbatim>\<open>xyz@nr=1,other=2\<close> under the trusted key \<^verbatim>\<open>xyz\<close> the keys seen
  are \<^verbatim>\<open>xyz@nr\<close> and \<^verbatim>\<open>other\<close>, but the parser returns the vendors \<^verbatim>\<open>other\<close> alone,
  and \<^verbatim>\<open>other\<close> is what the instance stores.
\<close>

theorem vendors_counterexample:
  "validateAndParseTraceStateHeader ''xyz'' ''xyz@nr=1,other=2''
     = Inr \<lparr>entryFound = True, tsd_entryValid = Val False, entryInvalidReason = Undefined,
            traceStateValid = True, tsd_intrinsics = Undefined,
            newTraceState = Val ''other=2'', vendors = [Val ''other'']\<rparr>
   \<and> map key_of (split_str (CHR '','') ''xyz@nr=1,other=2'') = [''xyz@nr'', ''other'']
   \<and> acceptTraceContextPayload ''xyz'' 0 TraceContext_init
        ''00-4bf92f3577b34da6a3ce929d0e0e4736-00f067aa0ba902b7-01'' ''xyz@nr=1,other=2''
     = Inr (\<lparr>tracingVendors = Val ''other'', trustedParentId = Null,
             traceStateRaw = Val ''other=2'',
             supportability = [''TraceContext/TraceState/InvalidNrEntry'']\<rparr>,
            \<lparr>acceptedTraceparent = True, acceptedTracestate = False, acceptedNRTracestate = False,
             traceId = Val ''4bf92f3577b34da6a3ce929d0e0e4736'',
             parentSpanId = Val ''00f067aa0ba902b7'', parentType = Null, accountId = Null,
             appId = Null, transactionId = Null, sampled = Null, priority = Null,
             transportDuration = Null\<rparr>)"
proof -
  have sp: "split_str (CHR '','') ''xyz@nr=1,other=2'' = [''xyz@nr=1'', ''other=2'']"
    by simp
  have iv: "i_entryValid (validateAndParseIntrinsics ''1'') = Val False"
    by (simp add: intrinsics_defs number_defs)
  have parser: "validateAndParseTraceStateHeader ''xyz'' ''xyz@nr=1,other=2''
     = Inr \<lparr>entryFound = True, tsd_entryValid = Val False, entryInvalidReason = Undefined,
            traceStateValid = True, tsd_intrinsics = Undefined,
            newTraceState = Val ''other=2'', vendors = [Val ''other'']\<rparr>"
    unfolding validateAndParseTraceStateHeader_def sp
    by (simp add: member_key_def member_ok_def at_index_def splice1_def iv)
  have keys: "map key_of (split_str (CHR '','') ''xyz@nr=1,other=2'') = [''xyz@nr'', ''other'']"
    unfolding sp by (simp add: key_of_def)
  have entry: "acceptTraceContextPayload ''xyz'' 0 TraceContext_init
        ''00-4bf92f3577b34da6a3ce929d0e0e4736-00f067aa0ba902b7-01'' ''xyz@nr=1,other=2''
     = Inr (\<lparr>tracingVendors = Val ''other'', trustedParentId = Null,
             traceStateRaw = Val ''other=2'',
             supportability = [''TraceContext/TraceState/InvalidNrEntry'']\<rparr>,
            \<lparr>acceptedTraceparent = True, acceptedTracestate = False, acceptedNRTracestate = False,
             traceId = Val ''4bf92f3577b34da6a3ce929d0e0e4736'',
             parentSpanId = Val ''00f067aa0ba902b7'', parentType = Null, accountId = Null,
             appId = Null, transactionId = Null, sampled = Null, priority = Null,
             transportDuration = Null\<rparr>)"
    unfolding acceptTraceContextPayload_def example_traceparent parser
    by (simp add: traceContextData_init_def TraceContext_init_def recordSupportability_def
        join_opt_def)
  from parser keys entry show ?thesis by (intro conjI)
qed

text \<open>
  C8, amended: for every tracestate whose members all split in two, the vendors returned
  by the parser are the keys of the members in their order, without the first key equal
  to \<^verbatim>\<open><key>@nr\<close> (the parser splices the matched key out together with its member);
  after an accepted traceparent the instance stores them joined by commas.
\<close>

theorem vendors_without_matched_key:
  assumes "validateAndParseTraceParentHeader tp = Inr p" and "tpi_entryValid p"
    and "list_all member_ok (split_str (CHR '','') ts)"
  shows "(\<exists>tsd. validateAndParseTraceStateHeader tk ts = Inr tsd \<and> traceStateValid tsd
            \<and> vendors tsd = map Val (remove1 (tk @ ''@nr'') (map key_of (split_str (CHR '','') ts))))
       \<and> (\<exists>this' d. acceptTraceContextPayload tk now this tp ts = Inr (this', d)
            \<and> tracingVendors this' =
                Val (join_str '','' (remove1 (tk @ ''@nr'') (map key_of (split_str (CHR '','') ts)))))"
proof (intro conjI)
  show "\<exists>tsd. validateAndParseTraceStateHeader tk ts = Inr tsd \<and> traceStateValid tsd
            \<and> vendors tsd = map Val (remove1 (tk @ ''@nr'') (map key_of (split_str (CHR '','') ts)))"
    unfolding tracestate_parser_valid[OF assms(3)]
    by (auto simp: tsd_spec_def find_None_remove1 split: option.splits)
  from accept_valid_tracestate_stores[OF assms, of tk now this]
  show "\<exists>this' d. acceptTraceContextPayload tk now this tp ts = Inr (this', d)
            \<and> tracingVendors this' =
                Val (join_str '','' (remove1 (tk @ ''@nr'') (map key_of (split_str (CHR '','') ts))))"
    by blast
qed

theorem vendors_without_matched_key_witness:
  "list_all member_ok (split_str (CHR '','') ''a=1,xyz@nr=2,b=3,xyz@nr=4'')
   \<and> (\<exists>tsd. validateAndParseTraceStateHeader ''xyz'' ''a=1,xyz@nr=2,b=3,xyz@nr=4'' = Inr tsd
         \<and> traceStateValid tsd \<and> vendors tsd = [Val ''a'', Val ''b'', Val ''xyz@nr''])
   \<and> (\<exists>this' d. acceptTraceContextPayload ''xyz'' 0 TraceContext_init
         ''00-4bf92f3577b34da6a3ce929d0e0e4736-00f067aa0ba902b7-01'' ''a=1,xyz@nr=2,b=3,xyz@nr=4''
           = Inr (this', d)
         \<and> tracingVendors this' = Val ''a,b,xyz@nr'')"
proof -
  have ok: "list_all member_ok (split_str (CHR '','') ''a=1,xyz@nr=2,b=3,xyz@nr=4'')"
    by (simp add: member_ok_def)
  have keys: "remove1 (''xyz'' @ ''@nr'') (map key_of (split_str (CHR '','') ''a=1,xyz@nr=2,b=3,xyz@nr=4''))
      = [''a'', ''b'', ''xyz@nr'']"
    by (simp add: key_of_def)
  from vendors_without_matched_key[OF example_traceparent _ ok, of "''xyz''" 0 TraceContext_init]
  show ?thesis using ok unfolding keys by simp
qed

lemma unsampled_example_intrinsics:
  "validateAndParseIntrinsics ''0-0-33-2827902-7d3efb1b173fecfa-e8b91a159289ff74--1.123456-1569367663277'' =
   \<lparr>i_version = Num 0, i_parentType = Val ''App'', i_accountId = Val ''33'',
    i_appId = Val ''2827902'', i_spanId = Val ''7d3efb1b173fecfa'',
    i_transactionId = Val ''e8b91a159289ff74'', i_sampled = False,
    i_priority = Val (Num (1123456 / 1000000)), i_timestamp = Num 1569367663277,
    i_entryValid = Val True, i_entryInvalidReason = Undefined\<rparr>"
  by (simp add: intrinsics_defs number_defs)

lemma unsampled_example_accept:
  "acceptTraceContextPayload ''xyz'' 0 TraceContext_init
     ''00-4bf92f3577b34da6a3ce929d0e0e4736-00f067aa0ba902b7-01''
     ''xyz@nr=0-0-33-2827902-7d3efb1b173fecfa-e8b91a159289ff74--1.123456-1569367663277''
   = Inr (\<lparr>tracingVendors = Val [], trustedParentId = Val ''7d3efb1b173fecfa'',
           traceStateRaw = Val [], supportability = [''TraceContext/Accept/Success'']\<rparr>,
          \<lparr>acceptedTraceparent = True, acceptedTracestate = True, acceptedNRTracestate = False,
           traceId = Val ''4bf92f3577b34da6a3ce929d0e0e4736'',
           parentSpanId = Val ''00f067aa0ba902b7'', parentType = Val ''App'',
           accountId = Val ''33'', appId = Val ''2827902'',
           transactionId = Val ''e8b91a159289ff74'', sampled = Val False,
           priority = Val (Num (1123456 / 1000000)), transportDuration = Val (Num 0)\<rparr>)"
proof -
  let ?ts = "''xyz@nr=0-0-33-2827902-7d3efb1b173fecfa-e8b91a159289ff74--1.123456-1569367663277''"
  have sp: "split_str (CHR '','') ?ts = [?ts]"
    by simp
  have ok: "list_all member_ok (split_str (CHR '','') ?ts)"
    unfolding sp by (simp add: member_ok_def)
  have fv: "find_vendor_value (''xyz'' @ ''@nr'') (split_str (CHR '','') ?ts)
      = Some ''0-0-33-2827902-7d3efb1b173fecfa-e8b91a159289ff74--1.123456-1569367663277''"
    unfolding sp by (simp add: key_of_def value_of_def)
  have valid: "i_entryValid (validateAndParseIntrinsics
      ''0-0-33-2827902-7d3efb1b173fecfa-e8b91a159289ff74--1.123456-1569367663277'') = Val True"
    by (simp add: unsampled_example_intrinsics)
  have pv: "tpi_entryValid \<lparr>tpi_entryValid = True, tpi_version = Val ''00'',
        tpi_traceId = Val ''4bf92f3577b34da6a3ce929d0e0e4736'',
        tpi_parentId = Val ''00f067aa0ba902b7'', tpi_flags = Val ''01''\<rparr>"
    by simp
  have ne: "?ts \<noteq> []" by simp
  from accept_entry_valid[OF example_traceparent pv ne ok fv valid, of 0 TraceContext_init]
  show ?thesis
    by (simp add: key_of_def unsampled_example_intrinsics accepted_parent_def
        traceContextData_init_def TraceContext_init_def recordSupportability_def)
qed

text \<open>
  C10: after an accepted traceparent, when the vendor entry of a tracestate whose members
  all split in two is valid and its seventh field (sampled) is the empty string, the
  entry point returns a result that accepts the tracestate and whose sampled field is
  the boolean \<^verbatim>\<open>false\<close>, not \<^verbatim>\<open>null\<close>.
\<close>

theorem absent_sampled_is_false:
  assumes "validateAndParseTraceParentHeader tp = Inr p" and "tpi_entryValid p"
    and "list_all member_ok (split_str (CHR '','') ts)"
    and "find_vendor_value (tk @ ''@nr'') (split_str (CHR '','') ts) = Some v"
    and "i_entryValid (validateAndParseIntrinsics v) = Val True"
    and "at_index (split_str (CHR ''-'') v) 6 = Val []"
  shows "\<exists>this' d. acceptTraceContextPayload tk now this tp ts = Inr (this', d)
           \<and> acceptedTracestate d \<and> sampled d = Val False"
  using accept_entry_valid[OF assms(1,2) member_ok_nonempty[OF assms(3)] assms(3,4,5), of now this]
    sampled_absent_false[OF assms(6)]
  by simp

theorem absent_sampled_is_false_witness:
  "find_vendor_value (''xyz'' @ ''@nr'') (split_str (CHR '','')
       ''xyz@nr=0-0-33-2827902-7d3efb1b173fecfa-e8b91a159289ff74--1.123456-1569367663277'')
     = Some ''0-0-33-2827902-7d3efb1b173fecfa-e8b91a159289ff74--1.123456-1569367663277''
   \<and> at_index (split_str (CHR ''-'')
        ''0-0-33-2827902-7d3efb1b173fecfa-e8b91a159289ff74--1.123456-1569367663277'') 6 = Val []
   \<and> i_entryValid (validateAndParseIntrinsics
        ''0-0-33-2827902-7d3efb1b173fecfa-e8b91a159289ff74--1.123456-1569367663277'') = Val True
   \<and> (\<exists>this' d. acceptTraceContextPayload ''xyz'' 0 TraceContext_init
         ''00-4bf92f3577b34da6a3ce929d0e0e4736-00f067aa0ba902b7-01''
         ''xyz@nr=0-0-33-2827902-7d3efb1b173fecfa-e8b91a159289ff74--1.123456-1569367663277''
           = Inr (this', d)
        \<and> acceptedTracestate d \<and> sampled d = Val False)"
proof -
  let ?ts = "''xyz@nr=0-0-33-2827902-7d3efb1b173fecfa-e8b91a159289ff74--1.123456-1569367663277''"
  let ?v = "''0-0-33-2827902-7d3efb1b173fecfa-e8b91a159289ff74--1.123456-1569367663277''"
  have ok: "list_all member_ok (split_str (CHR '','') ?ts)"
    by (simp add: member_ok_def)
  have fv: "find_vendor_value (''xyz'' @ ''@nr'') (split_str (CHR '','') ?ts) = Some ?v"
    by (simp add: key_of_def value_of_def)
  have at: "at_index (split_str (CHR ''-'') ?v) 6 = Val []"
    by (simp add: at_index_def)
  have valid: "i_entryValid (validateAndParseIntrinsics ?v) = Val True"
    by (simp add: unsampled_example_intrinsics)
  have pv: "tpi_entryValid \<lparr>tpi_entryValid = True, tpi_version = Val ''00'',
        tpi_traceId = Val ''4bf92f3577b34da6a3ce929d0e0e4736'',
        tpi_parentId = Val ''00f067aa0ba902b7'', tpi_flags = Val ''01''\<rparr>"
    by simp
  from absent_sampled_is_false[OF example_traceparent pv ok fv valid at, of 0 TraceContext_init]
    fv at valid
  show ?thesis by blast
qed

subsection \<open>The intrinsics validator\<close>

lemma isNaN_eq: "isNaN n = (n = NaN)"
  by (cases n) simp_all

lemma isNull_eq: "isNull v = (v = Null \<or> v = Undefined)"
  by (cases v) simp_all

lemma optional_isNaN_eq: "optional_isNaN v = (v = Val NaN)"
  by (cases v) (simp_all add: optional_isNaN_def isNaN_eq)

lemma failing_fields_table:
  "map fst (filter snd (intrinsicInvalidations x)) = failing_fields x"
  by (simp add: intrinsicInvalidations_def failing_fields_def isNaN_eq isNull_eq optional_isNaN_eq)

lemma no_failing_fields:
  "list_all (\<lambda>e. \<not> snd e) (intrinsicInvalidations x) = (failing_fields x = [])"
  unfolding failing_fields_table[symmetric]
  by (simp add: filter_empty_conv list_all_iff)

lemma PARENT_TYPES_at_cases:
  "PARENT_TYPES_at n =
     (if n = Num 0 then Val ''App'' else if n = Num 1 then Val ''Browser''
      else if n = Num 2 then Val ''Mobile'' else Undefined)"
proof (cases n)
  case (Num r)
  show ?thesis
  proof (cases "of_int \<lfloor>r\<rfloor> = r \<and> 0 \<le> r")
    case True
    then obtain k :: nat where k: "r = of_nat k"
      by (metis of_int_of_nat_eq zero_le_floor nonneg_int_cases of_int_of_nat_eq)
    have "k = 0 \<or> k = 1 \<or> k = 2 \<or> 3 \<le> k" by arith
    then show ?thesis
      using Num k by (auto simp: PARENT_TYPES_at_def PARENT_TYPES_def at_index_def)
  next
    case False
    then have "r \<noteq> 0" "r \<noteq> 1" "r \<noteq> 2" by auto
    with False Num show ?thesis by (auto simp: PARENT_TYPES_at_def)
  qed
qed (simp_all add: PARENT_TYPES_at_def)

text \<open>
  C9 as stated (every failing field, \<^verbatim>\<open>parentType\<close> included, records its name as the
  reason) does not hold. With a parent type index of 7, which maps to no parent type, and
  every other field in order, the entry is invalid but no reason is recorded: the index
  is looked up after the loop, and the check there clears \<^verbatim>\<open>entryValid\<close> only. The same
  for the vendor value \<^verbatim>\<open>0-7-33-2827902-a-b-1-1.5-123\<close>.
\<close>

theorem parentType_reason_counterexample:
  "PARENT_TYPES_at (p_parentType unmapped_parentType) = Undefined
   \<and> failing_fields unmapped_parentType = []
   \<and> i_entryValid (validateIntrinsics unmapped_parentType) = Val False
   \<and> i_entryInvalidReason (validateIntrinsics unmapped_parentType) = Undefined
   \<and> i_entryInvalidReason (validateAndParseIntrinsics ''0-7-33-2827902-a-b-1-1.5-123'') = Undefined
   \<and> i_entryValid (validateAndParseIntrinsics ''0-7-33-2827902-a-b-1-1.5-123'') = Val False"
  by (simp add: unmapped_parentType_def failing_fields_def intrinsics_defs number_defs)

text \<open>
  C9, amended: for every struct of converted fields the whole table is evaluated. The
  entry is valid exactly when none of version, accountId, appId, sampled, priority and
  timestamp fails its rule and the parent type index is 0, 1 or 2. When the parent type
  is a number, the reason recorded is that of the last of those six fields that fails,
  in the order of the table, and nothing when none fails; so a parent type index that
  names no parent type makes the entry invalid and records no reason. What is recorded
  when the parent type is absent or not a number is left open here. The parent type
  becomes its label and sampled becomes a boolean.
\<close>

theorem invalid_reason_is_last_failing_field:
  "i_entryValid (validateIntrinsics x)
     = Val (failing_fields x = [] \<and> p_parentType x \<in> {Num 0, Num 1, Num 2})
   \<and> (p_parentType x \<noteq> NaN \<longrightarrow>
        i_entryInvalidReason (validateIntrinsics x)
          = (if failing_fields x = [] then Undefined
             else Val (last (failing_fields x) @ '' failed invalidation test'')))
   \<and> i_parentType (validateIntrinsics x)
     = (if p_parentType x = Num 0 then Val ''App'' else if p_parentType x = Num 1 then Val ''Browser''
        else if p_parentType x = Num 2 then Val ''Mobile'' else Undefined)
   \<and> i_sampled (validateIntrinsics x) = Boolean_num (p_sampled x)"
proof (intro conjI impI)
  show "i_entryValid (validateIntrinsics x)
     = Val (failing_fields x = [] \<and> p_parentType x \<in> {Num 0, Num 1, Num 2})"
    unfolding entryValid_eq no_failing_fields PARENT_TYPES_at_cases
    by (auto simp: truthy_str_def)
  have "snd (invalidation_loop (intrinsicInvalidations x) (True, Undefined))
      = (if failing_fields x = [] then Undefined
         else Val (last (failing_fields x) @ '' failed invalidation test''))"
    unfolding invalidation_loop_reason failing_fields_table[symmetric]
    by (simp add: last_map)
  then show "i_entryInvalidReason (validateIntrinsics x)
     = (if failing_fields x = [] then Undefined
        else Val (last (failing_fields x) @ '' failed invalidation test''))"
    by (auto simp: validateIntrinsics_def Let_def split: prod.splits)
  show "i_parentType (validateIntrinsics x)
     = (if p_parentType x = Num 0 then Val ''App'' else if p_parentType x = Num 1 then Val ''Browser''
        else if p_parentType x = Num 2 then Val ''Mobile'' else Undefined)"
    unfolding PARENT_TYPES_at_cases[symmetric]
    by (simp add: validateIntrinsics_def Let_def split: prod.splits)
  show "i_sampled (validateIntrinsics x) = Boolean_num (p_sampled x)"
    by (simp add: validateIntrinsics_def Let_def split: prod.splits)
qed

theorem invalid_reason_is_last_failing_field_witness:
  "p_parentType failing_with_unmapped_parentType \<noteq> NaN
   \<and> failing_fields failing_with_unmapped_parentType = [''version'', ''appId'', ''priority'']
   \<and> i_entryValid (validateIntrinsics failing_with_unmapped_parentType) = Val False
   \<and> i_entryInvalidReason (validateIntrinsics failing_with_unmapped_parentType)
       = Val ''priority failed invalidation test''
   \<and> i_parentType (validateIntrinsics failing_with_unmapped_parentType) = Undefined
   \<and> i_sampled (validateIntrinsics failing_with_unmapped_parentType) = True"
proof -
  have nn: "p_parentType failing_with_unmapped_parentType \<noteq> NaN"
    by (simp add: failing_with_unmapped_parentType_def)
  have ff: "failing_fields failing_with_unmapped_parentType = [''version'', ''appId'', ''priority'']"
    by (simp add: failing_with_unmapped_parentType_def failing_fields_def)
  have pt: "p_parentType failing_with_unmapped_parentType = Num 7"
    "p_sampled failing_with_unmapped_parentType = Val (Num 1)"
    by (simp_all add: failing_with_unmapped_parentType_def)
  from invalid_reason_is_last_failing_field[of failing_with_unmapped_parentType] nn
  show ?thesis unfolding ff pt by simp
qed

subsection \<open>Where the decode path can raise\<close>

lemma tracestate_parser_total: "\<exists>tsd. validateAndParseTraceStateHeader tk ts = Inr tsd"
proof (cases "list_all member_ok (split_str (CHR '','') ts)")
  case True
  then show ?thesis by (simp add: tracestate_parser_valid)
next
  case False
  then show ?thesis by (simp add: tracestate_parser_invalid)
qed

lemma accept_raises_only_from_traceparent:
  assumes "acceptTraceContextPayload tk now this tp ts = Inl e"
  shows "validateAndParseTraceParentHeader tp = Inl e"
proof (cases "validateAndParseTraceParentHeader tp")
  case (Inl e')
  with assms show ?thesis
    by (auto simp: acceptTraceContextPayload_def split: if_splits)
next
  case (Inr p)
  show ?thesis
  proof (cases "tpi_entryValid p")
    case False
    with Inr assms show ?thesis
      by (auto simp: acceptTraceContextPayload_def split: if_splits)
  next
    case True
    show ?thesis
    proof (cases "list_all member_ok (split_str (CHR '','') ts)")
      case False
      from accept_invalid_tracestate[OF Inr True False, of tk now this] assms show ?thesis
        by simp
    next
      case oks: True
      from accept_valid_tracestate_stores[OF Inr True oks, of tk now this] assms show ?thesis
        by auto
    qed
  qed
qed

lemma traceparent_parser_four_fields:
  assumes "4 \<le> length (split_str (CHR ''-'') tp) \<or> at_index (split_str (CHR ''-'') tp) 0 = Val ''00''"
  shows "\<exists>p. validateAndParseTraceParentHeader tp = Inr p"
proof -
  define parts where "parts = split_str (CHR ''-'') tp"
  show ?thesis
  proof (cases "4 \<le> length parts")
    case True
    then show ?thesis
      unfolding validateAndParseTraceParentHeader_def parts_def[symmetric]
      by (auto simp: at_index_def str_match_def and_also_def Let_def)
  next
    case False
    with assms have "at_index parts 0 = Val ''00''" "length parts \<noteq> 4"
      by (simp_all add: parts_def)
    then show ?thesis
      unfolding validateAndParseTraceParentHeader_def parts_def[symmetric]
      by (simp add: W3C_TRACEPARENT_VERSION_def)
  qed
qed

subsection \<open>What \<^verbatim>\<open>parseInt\<close> reads\<close>

text \<open>
  \<^verbatim>\<open>parseInt\<close> reads a leading run of digits and ignores what follows it; it yields
  \<^verbatim>\<open>NaN\<close> for every text that starts with a character other than white space, a sign
  or a digit.
\<close>

lemma parseInt_reads_prefix: "parseInt ''12abc'' 0 = Num 12"
  by (simp add: number_defs)

lemma radix_ten_digit: "is_radix_digit 10 c = is_digit c"
  by (cases c) (simp add: is_radix_digit_def digit_val_def is_digit_def Let_def)

lemma parseInt_no_leading_digit:
  assumes "\<not> is_digit c" "\<not> is_space c" "c \<noteq> CHR ''-''" "c \<noteq> CHR ''+''"
  shows "parseInt (c # cs) 0 = NaN"
proof -
  have "c \<noteq> CHR ''0''" using assms(1) by (auto simp: is_digit_def)
  then have "\<not> has_hex_prefix (c # cs)" by (cases cs) simp_all
  then show ?thesis
    using assms by (simp add: parseInt_def trimStart_def radix_ten_digit)
qed

subsection \<open>Numbers as text\<close>

declare show_nat.simps [simp del] show_hex.simps [simp del]

lemma below_ten: "(d::nat) < 10 \<Longrightarrow> d \<in> {0, 1, 2, 3, 4, 5, 6, 7, 8, 9}"
  by auto

lemma digit_char_props:
  assumes "d < 10"
  shows "is_digit (digit_char d)" and "digit_val (digit_char d) = Some d"
    and "\<not> is_space (digit_char d)"
    and "digit_char d \<noteq> CHR ''-''" and "digit_char d \<noteq> CHR ''+''"
    and "digit_char d \<noteq> CHR ''x''" and "digit_char d \<noteq> CHR ''X''"
    and "digit_char d \<noteq> CHR ''I''"
  using below_ten[OF assms]
  by (auto simp: digit_char_def is_digit_def digit_val_def is_space_def)

lemma is_digit_props:
  assumes "is_digit c"
  shows "\<not> is_space c" and "c \<noteq> CHR ''-''" and "c \<noteq> CHR ''+''" and "c \<noteq> CHR ''x''"
    and "c \<noteq> CHR ''X''" and "c \<noteq> CHR ''I''" and "c \<noteq> CHR '',''" and "c \<noteq> CHR ''=''"
    and "c \<noteq> CHR ''.''" and "is_radix_digit 10 c" and "lower_hex c"
  using assms
  by (auto simp: is_digit_def is_space_def is_radix_digit_def digit_val_def lower_hex_def)

lemma show_nat_digits: "list_all is_digit (show_nat n)"
proof (induction n rule: show_nat.induct)
  case (1 n)
  show ?case
  proof (cases "n < 10")
    case True
    then show ?thesis by (subst show_nat.simps) (simp add: digit_char_props)
  next
    case False
    with 1 show ?thesis by (subst show_nat.simps) (simp add: digit_char_props)
  qed
qed

lemma show_nat_not_Nil [simp]: "show_nat n \<noteq> []"
  by (subst show_nat.simps) simp

lemma digits_val_foldl:
  "foldl (\<lambda>acc c. acc * R + (case digit_val c of None \<Rightarrow> 0 | Some d \<Rightarrow> d)) acc s
     = acc * R ^ length s + digits_val R s"
proof -
  define step where "step = (\<lambda>acc c. acc * R + (case digit_val c of None \<Rightarrow> 0 | Some d \<Rightarrow> d))"
  have "foldl step acc s = acc * R ^ length s + foldl step 0 s"
  proof (induction s arbitrary: acc)
    case Nil
    show ?case by simp
  next
    case (Cons c s)
    have one: "foldl step (step acc c) s = step acc c * R ^ length s + foldl step 0 s"
      by (rule Cons.IH)
    have two: "foldl step (step 0 c) s = step 0 c * R ^ length s + foldl step 0 s"
      by (rule Cons.IH)
    have "step acc c = acc * R + step 0 c" by (simp add: step_def)
    with one two show ?case by (simp add: algebra_simps)
  qed
  then show ?thesis by (simp add: digits_val_def step_def)
qed

lemma digits_val_append:
  "digits_val R (xs @ ys) = digits_val R xs * R ^ length ys + digits_val R ys"
  using digits_val_foldl[of R "digits_val R xs" ys]
  by (simp add: digits_val_def)

lemma digits_val_single: "digits_val R [c] = (case digit_val c of None \<Rightarrow> 0 | Some d \<Rightarrow> d)"
  by (simp add: digits_val_def)

lemma digits_val_show_nat: "digits_val 10 (show_nat n) = n"
proof (induction n rule: show_nat.induct)
  case (1 n)
  show ?case
  proof (cases "n < 10")
    case True
    then show ?thesis
      by (subst show_nat.simps) (simp add: digits_val_single digit_char_props)
  next
    case False
    with 1 show ?thesis
      by (subst show_nat.simps) (simp add: digits_val_append digits_val_single digit_char_props)
  qed
qed

lemma digits_val_zeros: "digits_val 10 (replicate k (CHR ''0'') @ s) = digits_val 10 s"
proof (induction k)
  case 0
  show ?case by simp
next
  case (Suc k)
  have "digits_val 10 (CHR ''0'' # replicate k (CHR ''0'') @ s)
      = digits_val 10 [CHR ''0''] * 10 ^ length (replicate k (CHR ''0'') @ s)
        + digits_val 10 (replicate k (CHR ''0'') @ s)"
    using digits_val_append[of 10 "[CHR ''0'']" "replicate k (CHR ''0'') @ s"] by simp
  with Suc show ?case by (simp add: digits_val_single digit_val_def)
qed

lemma takeWhile_all: "list_all P s \<Longrightarrow> takeWhile P s = s"
  by (simp add: list_all_iff takeWhile_eq_all_conv)

lemma digits_no_hex_prefix: "list_all is_digit s \<Longrightarrow> \<not> has_hex_prefix s"
proof (cases s)
  case Nil
  then show ?thesis by simp
next
  case (Cons a t)
  assume d: "list_all is_digit s"
  show ?thesis
  proof (cases t)
    case Nil
    with Cons show ?thesis by simp
  next
    case (Cons b u)
    with d \<open>s = a # t\<close> have "is_digit b" by simp
    from is_digit_props(4,5)[OF this] Cons \<open>s = a # t\<close> show ?thesis by simp
  qed
qed

lemma parseInt_digits:
  assumes "list_all is_digit s" "s \<noteq> []" "radix = 0 \<or> radix = 10"
  shows "parseInt s radix = Num (of_nat (digits_val 10 s))"
proof -
  obtain c t where s: "s = c # t" using assms(2) by (cases s) auto
  with assms(1) have c: "is_digit c" by simp
  have trim: "trimStart s = s"
    using is_digit_props(1)[OF c] s by (simp add: trimStart_def)
  have sign: "take_sign s = (1, s)"
    using is_digit_props(2,3)[OF c] s by simp
  have rd: "list_all (is_radix_digit 10) s"
    using assms(1) by (simp add: list_all_iff is_digit_props)
  show ?thesis
    using assms(2,3) digits_no_hex_prefix[OF assms(1)]
    by (auto simp: parseInt_def trim sign takeWhile_all[OF rd])
qed

lemma parseFloat_decimal:
  assumes "list_all is_digit a" "a \<noteq> []" "list_all is_digit b"
  shows "parseFloat (a @ CHR ''.'' # b)
     = Num (of_nat (digits_val 10 a) + of_nat (digits_val 10 b) / 10 ^ length b)"
proof -
  obtain c t where a: "a = c # t" using assms(2) by (cases a) auto
  with assms(1) have c: "is_digit c" by simp
  have trim: "trimStart (a @ CHR ''.'' # b) = a @ CHR ''.'' # b"
    using is_digit_props(1)[OF c] a by (simp add: trimStart_def)
  have sign: "take_sign (a @ CHR ''.'' # b) = (1, a @ CHR ''.'' # b)"
    using is_digit_props(2,3)[OF c] a by simp
  have inf: "take 8 (a @ CHR ''.'' # b) \<noteq> ''Infinity''"
    using is_digit_props(6)[OF c] a by auto
  then have inf': "take 8 a @ take (8 - length a) (CHR ''.'' # b) \<noteq> ''Infinity''"
    by simp
  have nd: "\<not> is_digit (CHR ''.'')" by (simp add: is_digit_def)
  have ip: "takeWhile is_digit (a @ CHR ''.'' # b) = a"
    using assms(1) nd by (simp add: takeWhile_tail takeWhile_all)
  have r1: "dropWhile is_digit (a @ CHR ''.'' # b) = CHR ''.'' # b"
    using assms(1) nd by (simp add: dropWhile_append3 list_all_iff dropWhile_append)
  have fp: "takeWhile is_digit b = b" "dropWhile is_digit b = []"
    using assms(3) by (simp_all add: takeWhile_all list_all_iff)
  show ?thesis
    using assms(2)
    by (simp add: parseFloat_def trim sign inf' ip r1 fp exponent_part_def scale10_def)
qed


lemma floor_add_half: "\<lfloor>(of_int z :: rat) + 1 / 2\<rfloor> = z"
  by linarith

lemma toFixed_six:
  assumes "0 < r" "r < 10 ^ 21" "of_int \<lfloor>r * 10 ^ 6\<rfloor> = r * 10 ^ 6"
  shows "\<exists>a b. toFixed 6 (Num r) = Some (a @ CHR ''.'' # b) \<and> list_all is_digit a \<and> a \<noteq> []
           \<and> list_all is_digit b \<and> length b = 6
           \<and> of_nat (digits_val 10 a) + of_nat (digits_val 10 b) / 10 ^ 6 = r"
proof -
  define z where "z = \<lfloor>r * 10 ^ 6\<rfloor>"
  define n where "n = nat z"
  define m where "m = padStart 7 (CHR ''0'') (show_nat n)"
  define a where "a = take (length m - 6) m"
  define b where "b = drop (length m - 6) m"
  have z: "of_int z = r * 10 ^ 6" using assms(3) by (simp add: z_def)
  have "0 \<le> z" using assms(1) by (simp add: z_def)
  then have n: "(of_nat n :: rat) = r * 10 ^ 6" using z by (simp add: n_def)
  have fl: "nat \<lfloor>\<bar>r\<bar> * 10 ^ 6 + 1 / 2\<rfloor> = n"
    using assms(1) floor_add_half[of z] by (simp add: z n_def)
  have zero: "is_digit (CHR ''0'')" by (simp add: is_digit_def)
  have m_digits: "list_all is_digit m"
    using show_nat_digits[of n] zero by (auto simp: m_def padStart_def list_all_iff)
  have m_len: "7 \<le> length m" by (simp add: m_def padStart_def)
  have m_val: "digits_val 10 m = n"
    by (simp add: m_def padStart_def digits_val_zeros digits_val_show_nat)
  have ab: "a @ b = m" by (simp add: a_def b_def)
  have b_len: "length b = 6" using m_len by (simp add: b_def)
  have a_ne: "a \<noteq> []" using m_len by (auto simp: a_def)
  have digits: "list_all is_digit a" "list_all is_digit b"
    using m_digits unfolding ab[symmetric] by simp_all
  have "digits_val 10 a * 10 ^ 6 + digits_val 10 b = n"
    using digits_val_append[of 10 a b] by (simp add: ab m_val b_len)
  then have "(of_nat (digits_val 10 a) :: rat) * 10 ^ 6 + of_nat (digits_val 10 b) = r * 10 ^ 6"
    using n by (metis of_nat_add of_nat_mult of_nat_numeral of_nat_power)
  then have val: "(of_nat (digits_val 10 a) :: rat) + of_nat (digits_val 10 b) / 10 ^ 6 = r"
    by (simp add: field_simps)
  have fl': "nat \<lfloor>r * 1000000 + 1 / 2\<rfloor> = n"
    using fl assms(1) by simp
  have "toFixed 6 (Num r) = Some (a @ CHR ''.'' # b)"
    using assms(1,2) by (simp add: toFixed_def fl' Let_def m_def a_def b_def)
  with digits a_ne b_len val show ?thesis by blast
qed

lemma digits_no_separator: "list_all is_digit s \<Longrightarrow> no_separator s"
  by (auto simp: no_separator_def list_all_iff is_digit_props simp del: is_digit_def)

lemma priority_round_trip:
  assumes "valid_priority p"
  shows "\<exists>txt. priority_text p = Some txt \<and> no_separator txt
           \<and> conv_priority (empty_to_null txt) = coerced_priority p"
proof (cases "Boolean_num p")
  case False
  with assms have "p = Null \<or> p = Undefined"
    by (auto simp: valid_priority_def split: jsopt.splits jsnum.splits)
  with False show ?thesis
    by (auto simp: priority_text_def coerced_priority_def no_separator_def empty_to_null_def
        conv_priority_def)
next
  case True
  with assms obtain r where p: "p = Val (Num r)" and r9: "0 < r" "r < 10 ^ 9"
      "of_int \<lfloor>r * 10 ^ 6\<rfloor> = r * 10 ^ 6"
    by (auto simp: valid_priority_def split: jsopt.splits jsnum.splits)
  from r9(2) have "r < 10 ^ 21" by simp
  note r = r9(1) this r9(3)
  from toFixed_six[OF r] obtain a b where
    fx: "toFixed 6 (Num r) = Some (a @ CHR ''.'' # b)" and
    d: "list_all is_digit a" "a \<noteq> []" "list_all is_digit b" "length b = 6" and
    v: "of_nat (digits_val 10 a) + of_nat (digits_val 10 b) / 10 ^ 6 = r"
    by blast
  have sep: "no_separator (a @ CHR ''.'' # b)"
    using digits_no_separator[OF d(1)] digits_no_separator[OF d(3)]
    by (simp add: no_separator_def)
  have "parseFloat (a @ CHR ''.'' # b) = Num r"
    using parseFloat_decimal[OF d(1,2,3)] v d(4) by simp
  then show ?thesis
    using True p fx sep d(2)
    by (simp add: priority_text_def coerced_priority_def empty_to_null_def conv_priority_def)
qed

lemma coerced_priority_not_NaN:
  "valid_priority p \<Longrightarrow> \<not> optional_isNaN (coerced_priority p)"
  by (auto simp: valid_priority_def coerced_priority_def optional_isNaN_def
      split: jsopt.splits jsnum.splits)


lemma lower_hex_not_dash: "lower_hex c \<Longrightarrow> c \<noteq> CHR ''-''"
  by (auto simp: lower_hex_def)

lemma padded_hex_id:
  assumes "hex_id n s"
  shows "hex_rgx n (Some (CHR ''0'')) (padStart n (CHR ''0'') s)"
    and "CHR ''-'' \<notin> set (padStart n (CHR ''0'') s)"
proof -
  from assms have len: "length s \<le> n" and hx: "list_all lower_hex s" and nz: "\<not> all_zero s"
    by (simp_all add: hex_id_def)
  have zero: "lower_hex (CHR ''0'')" by (simp add: lower_hex_def)
  have l: "length (padStart n (CHR ''0'') s) = n" using len by (simp add: padStart_def)
  have h: "list_all lower_hex (padStart n (CHR ''0'') s)"
    using hx zero by (auto simp: padStart_def list_all_iff)
  have z: "\<not> list_all (\<lambda>x. x = CHR ''0'') (padStart n (CHR ''0'') s)"
    using nz by (simp add: padStart_def all_zero_def)
  show "hex_rgx n (Some (CHR ''0'')) (padStart n (CHR ''0'') s)"
    using l h z by (simp add: hex_rgx_def)
  show "CHR ''-'' \<notin> set (padStart n (CHR ''0'') s)"
    using h lower_hex_not_dash by (auto simp: list_all_iff)
qed

lemma createFlagsHex_cases:
  "createFlagsHex a = (if truthy_bool (tx_sampled (transaction a)) then ''01'' else ''00'')"
  by (simp add: createFlagsHex_def FLAGS_sampled_def padStart_def show_hex.simps digit_char_def)

lemma encoded_traceparent_accepted:
  assumes "hex_id 32 (getTraceId (transaction a))" "hex_id 16 (parent_id_source a)"
  shows "validateAndParseTraceParentHeader (traceparent a) =
     Inr \<lparr>tpi_entryValid = True, tpi_version = Val ''00'',
          tpi_traceId = Val (padStart 32 (CHR ''0'') (getTraceId (transaction a))),
          tpi_parentId = Val (padStart 16 (CHR ''0'') (parent_id_source a)),
          tpi_flags = Val (createFlagsHex a)\<rparr>"
proof -
  let ?tid = "padStart 32 (CHR ''0'') (getTraceId (transaction a))"
  let ?pid = "padStart 16 (CHR ''0'') (parent_id_source a)"
  let ?parts = "[''00'', ?tid, ?pid, createFlagsHex a]"
  have shape: "traceparent a = join_str ''-'' ?parts"
    by (simp add: traceparent_def parent_id_source_def W3C_TRACEPARENT_VERSION_def)
  have nodash: "\<forall>x\<in>set ?parts. CHR ''-'' \<notin> set x"
    using padded_hex_id(2)[OF assms(1)] padded_hex_id(2)[OF assms(2)]
    by (simp add: createFlagsHex_cases)
  have sp: "split_str (CHR ''-'') (traceparent a) = ?parts"
    unfolding shape by (rule split_join_str[OF _ nodash]) simp
  have ne: "traceparent a \<noteq> []"
    by (simp add: traceparent_def W3C_TRACEPARENT_VERSION_def)
  have rg: "VERSION_VALID_RGX ''00''" "TRACEID_VALID_RGX ?tid" "PARENTID_VALID_RGX ?pid"
      "FLAGS_VALID_RGX (createFlagsHex a)"
    using padded_hex_id(1)[OF assms(1)] padded_hex_id(1)[OF assms(2)]
    by (simp_all add: VERSION_VALID_RGX_def TRACEID_VALID_RGX_def PARENTID_VALID_RGX_def
        FLAGS_VALID_RGX_def createFlagsHex_cases) (simp_all add: hex_rgx_def lower_hex_def)
  show ?thesis
    unfolding validateAndParseTraceParentHeader_def sp
    using ne rg by (simp add: at_index_def str_match_def and_also_def W3C_TRACEPARENT_VERSION_def)
qed

subsection \<open>The encoded header values\<close>

lemma no_separator_iff:
  "no_separator s = (CHR ''-'' \<notin> set s \<and> CHR '','' \<notin> set s \<and> CHR ''='' \<notin> set s)"
  by (auto simp: no_separator_def list_all_iff)

lemma lower_hex_char:
  "lower_hex c \<Longrightarrow> c \<noteq> CHR ''-'' \<and> c \<noteq> CHR '','' \<and> c \<noteq> CHR ''=''"
  by (auto simp: lower_hex_def)

lemma lower_hex_no_separator: "list_all lower_hex s \<Longrightarrow> no_separator s"
  unfolding no_separator_def list_all_iff using lower_hex_char by blast

lemma join_str_avoids:
  "\<forall>x\<in>set xs. c \<notin> set x \<Longrightarrow> c \<notin> set sep \<Longrightarrow> c \<notin> set (join_str sep xs)"
  by (induction sep xs rule: join_str.induct) auto

lemma value_of_pair: "CHR ''='' \<notin> set k \<Longrightarrow> value_of (k @ CHR ''='' # v) = v"
  by (simp add: value_of_def dropWhile_append3 dropWhile_append)

lemma show_nat_zero: "show_nat 0 = ''0''"
  by (subst show_nat.simps) (simp add: digit_char_def)

lemma encoded_intrinsics:
  assumes ne: "acc \<noteq> []" "app \<noteq> []"
    and sep: "no_separator acc" "no_separator app" "no_separator spn" "no_separator tx"
      "no_separator ptxt"
    and smp: "smp = (if flag then ''1'' else ''0'')"
    and pr: "conv_priority (empty_to_null ptxt) = cp" "\<not> optional_isNaN cp"
  shows "validateAndParseIntrinsics
           (join_str ''-'' [''0'', ''0'', acc, app, spn, tx, smp, ptxt, show_nat t]) =
     \<lparr>i_version = Num 0, i_parentType = Val ''App'', i_accountId = Val acc, i_appId = Val app,
      i_spanId = empty_to_null spn, i_transactionId = empty_to_null tx, i_sampled = flag,
      i_priority = cp, i_timestamp = Num (of_nat t), i_entryValid = Val True,
      i_entryInvalidReason = Undefined\<rparr>"
proof -
  let ?fields = "[''0'', ''0'', acc, app, spn, tx, smp, ptxt, show_nat t]"
  have nodash: "\<forall>x\<in>set ?fields. CHR ''-'' \<notin> set x"
    using sep digits_no_separator[OF show_nat_digits[of t]] smp
    by (auto simp: no_separator_iff)
  have sp: "split_str (CHR ''-'') (join_str ''-'' ?fields) = ?fields"
    by (rule split_join_str[OF _ nodash]) simp
  have zero: "parseInt ''0'' 0 = Num 0"
    by (simp add: number_defs)
  have stamp: "parseInt (show_nat t) 0 = Num (of_nat t)"
    using parseInt_digits[OF show_nat_digits[of t], of 0] by (simp add: digits_val_show_nat)
  have sampled: "conv_sampled (Val smp) = Val (Num (if flag then 1 else 0))"
    using smp by (simp add: conv_sampled_def number_defs)
  have parsed: "parseIntrinsics (join_str ''-'' ?fields) =
      \<lparr>p_version = Num 0, p_parentType = Num 0, p_accountId = Val acc, p_appId = Val app,
       p_spanId = empty_to_null spn, p_transactionId = empty_to_null tx,
       p_sampled = Val (Num (if flag then 1 else 0)), p_priority = cp,
       p_timestamp = Num (of_nat t)\<rparr>"
    unfolding parseIntrinsics_def extractTraceStateIntrinsics_def sp
    using ne smp pr(1) sampled
    by (simp add: nullable_at_def empty_to_null_def conv_int_def zero stamp)
  show ?thesis
    unfolding validateAndParseIntrinsics_def parsed
    using pr(2)
    by (simp add: validateIntrinsics_def intrinsicInvalidations_def PARENT_TYPES_at_def
        PARENT_TYPES_def at_index_def truthy_str_def optional_isNaN_def)
qed

lemma encoded_tracestate_members:
  assumes key: "CHR '','' \<notin> set k" "CHR ''='' \<notin> set k"
    and val: "CHR '','' \<notin> set v" "CHR ''='' \<notin> set v"
    and raw: "pass_through_ok this"
  shows "list_all member_ok (split_str (CHR '','')
            (if truthy_str (traceStateRaw this)
             then (k @ CHR ''='' # v) @ CHR '','' # to_string (traceStateRaw this)
             else k @ CHR ''='' # v))
       \<and> find_vendor_value k (split_str (CHR '','')
            (if truthy_str (traceStateRaw this)
             then (k @ CHR ''='' # v) @ CHR '','' # to_string (traceStateRaw this)
             else k @ CHR ''='' # v)) = Some v"
proof -
  let ?nr = "k @ CHR ''='' # v"
  have nocomma: "CHR '','' \<notin> set ?nr" using key val by simp
  have ok: "member_ok ?nr" by (rule member_ok_pair[OF key(2) val(2)])
  have kv: "key_of ?nr = k" "value_of ?nr = v"
    using key(2) by (simp_all add: key_of_pair value_of_pair)
  show ?thesis
  proof (cases "truthy_str (traceStateRaw this)")
    case False
    then show ?thesis
      using ok kv by (simp add: split_str_no_sep[OF nocomma])
  next
    case True
    then obtain r where r: "traceStateRaw this = Val r" "r \<noteq> []"
      by (auto simp: truthy_str_def split: jsopt.splits)
    with raw have rest: "list_all member_ok (split_str (CHR '','') r)"
      by (simp add: pass_through_ok_def)
    have "split_str (CHR '','') (?nr @ CHR '','' # r) = ?nr # split_str (CHR '','') r"
      by (rule split_str_head[OF nocomma])
    then show ?thesis
      using True r ok kv rest by simp
  qed
qed

subsection \<open>The round trip\<close>

lemma span_no_separator:
  assumes "hex_id 16 (parent_id_source a)"
  shows "no_separator (if span_events_enabled (config a)
                       then (case getSegment a of Val sid \<Rightarrow> sid | _ \<Rightarrow> [])
                       else [])"
proof (cases "truthy_str (getSegment a)")
  case True
  then obtain sid where sid: "getSegment a = Val sid" 
    by (auto simp: truthy_str_def split: jsopt.splits)
  with True assms have "list_all lower_hex sid"
    by (simp add: parent_id_source_def hex_id_def)
  from lower_hex_no_separator[OF this] sid show ?thesis
    by (simp add: no_separator_def)
next
  case False
  then show ?thesis
    by (auto simp: truthy_str_def no_separator_def split: jsopt.splits)
qed

text \<open>
  The round trip where the priority is absent or positive. Take a unit of work whose
  identifiers are well formed and a sending instance whose stored pass-through value is
  one the decoder can have left. Then the tracestate getter yields a value, and decoding
  the two encoded header values with the same trusted account key, at any time and on
  any receiving instance, accepts the traceparent and the tracestate and gives back: the
  trace id and the parent id, padded with zeros to 32 and 16 digits; the parent type
  \<^verbatim>\<open>App\<close>; the account id and the application id; the transaction id, or \<^verbatim>\<open>null\<close>
  when transaction events are disabled; the sampled flag as a boolean; and the priority,
  or \<^verbatim>\<open>null\<close> when there is none.
\<close>

lemma round_trip:
  assumes wf: "well_formed_state a" and pt: "pass_through_ok this"
  shows "\<exists>ts this' d.
      tracestate a this = Some ts
    \<and> acceptTraceContextPayload (trusted_account_key (config a)) now receiver (traceparent a) ts
        = Inr (this', d)
    \<and> acceptedTraceparent d \<and> acceptedTracestate d
    \<and> traceId d = Val (padStart 32 (CHR ''0'') (getTraceId (transaction a)))
    \<and> parentSpanId d = Val (padStart 16 (CHR ''0'') (parent_id_source a))
    \<and> parentType d = Val ''App''
    \<and> accountId d = Val (account_id (config a))
    \<and> appId d = Val (primary_application_id (config a))
    \<and> transactionId d = coerced_transaction_id a
    \<and> sampled d = Val (truthy_bool (tx_sampled (transaction a)))
    \<and> priority d = coerced_priority (tx_priority (transaction a))"
proof -
  define tk where "tk = trusted_account_key (config a)"
  define acc where "acc = account_id (config a)"
  define app where "app = primary_application_id (config a)"
  define spn where "spn = (if span_events_enabled (config a)
                       then (case getSegment a of Val sid \<Rightarrow> sid | _ \<Rightarrow> [])
                       else [])"
  define tx where "tx = (if transaction_events_enabled (config a) then tx_id (transaction a) else [])"
  define flag where "flag = truthy_bool (tx_sampled (transaction a))"
  define smp where "smp = (if flag then ''1'' else ''0'')"
  from wf have tid: "hex_id 32 (getTraceId (transaction a))"
    and pid: "hex_id 16 (parent_id_source a)"
    and key: "CHR '','' \<notin> set tk" "CHR ''='' \<notin> set tk"
    and ne: "acc \<noteq> []" "app \<noteq> []" "tx_id (transaction a) \<noteq> []"
    and sep: "no_separator acc" "no_separator app" "no_separator (tx_id (transaction a))"
    and vp: "valid_priority (tx_priority (transaction a))"
    by (auto simp: well_formed_state_def tk_def acc_def app_def list_all_iff)
  from priority_round_trip[OF vp] obtain ptxt where
    ptxt: "priority_text (tx_priority (transaction a)) = Some ptxt" and
    psep: "no_separator ptxt" and
    pconv: "conv_priority (empty_to_null ptxt) = coerced_priority (tx_priority (transaction a))"
    by blast
  have ssep: "no_separator spn" unfolding spn_def by (rule span_no_separator[OF pid])
  have tsep: "no_separator tx" using sep(3) by (simp add: tx_def no_separator_def)
  let ?fields = "[''0'', ''0'', acc, app, spn, tx, smp, ptxt, show_nat (Date_now a)]"
  let ?v = "join_str ''-'' ?fields"
  let ?k = "tk @ ''@nr''"
  let ?ts = "(if truthy_str (traceStateRaw this)
              then (?k @ CHR ''='' # ?v) @ CHR '','' # to_string (traceStateRaw this)
              else ?k @ CHR ''='' # ?v)"
  have enc: "tracestate a this = Some ?ts"
    by (simp add: tracestate_def ptxt indexOf_def PARENT_TYPES_def NR_TRACESTATE_VERSION_def
        show_int_def show_nat_zero tk_def acc_def app_def spn_def tx_def smp_def flag_def)
  have fsep: "\<forall>x\<in>set ?fields. CHR '','' \<notin> set x \<and> CHR ''='' \<notin> set x"
    using sep(1,2) ssep tsep psep digits_no_separator[OF show_nat_digits[of "Date_now a"]]
    by (auto simp: no_separator_iff smp_def)
  have vsep: "CHR '','' \<notin> set ?v" "CHR ''='' \<notin> set ?v"
    using fsep by (auto intro!: join_str_avoids)
  have ksep: "CHR '','' \<notin> set ?k" "CHR ''='' \<notin> set ?k"
    using key by simp_all
  from encoded_tracestate_members[OF ksep vsep pt]
  have oks: "list_all member_ok (split_str (CHR '','') ?ts)"
    and fv: "find_vendor_value ?k (split_str (CHR '','') ?ts) = Some ?v"
    by simp_all
  have iv: "validateAndParseIntrinsics ?v =
     \<lparr>i_version = Num 0, i_parentType = Val ''App'', i_accountId = Val acc, i_appId = Val app,
      i_spanId = empty_to_null spn, i_transactionId = empty_to_null tx, i_sampled = flag,
      i_priority = coerced_priority (tx_priority (transaction a)),
      i_timestamp = Num (of_nat (Date_now a)), i_entryValid = Val True,
      i_entryInvalidReason = Undefined\<rparr>"
    by (rule encoded_intrinsics[OF ne(1,2) sep(1,2) ssep tsep psep smp_def pconv
          coerced_priority_not_NaN[OF vp]])
  have valid: "i_entryValid (validateAndParseIntrinsics ?v) = Val True"
    by (subst iv) simp
  note parent = encoded_traceparent_accepted[OF tid pid]
  have pv: "tpi_entryValid \<lparr>tpi_entryValid = True, tpi_version = Val ''00'',
          tpi_traceId = Val (padStart 32 (CHR ''0'') (getTraceId (transaction a))),
          tpi_parentId = Val (padStart 16 (CHR ''0'') (parent_id_source a)),
          tpi_flags = Val (createFlagsHex a)\<rparr>"
    by simp
  have txid: "empty_to_null tx = coerced_transaction_id a"
    using ne(3) by (simp add: tx_def empty_to_null_def coerced_transaction_id_def)
  note acc_thm = accept_entry_valid[OF parent pv member_ok_nonempty[OF oks] oks fv valid,
      of now receiver, unfolded iv]
  from acc_thm have "\<exists>this' d.
      acceptTraceContextPayload tk now receiver (traceparent a) ?ts = Inr (this', d)
    \<and> acceptedTraceparent d \<and> acceptedTracestate d
    \<and> traceId d = Val (padStart 32 (CHR ''0'') (getTraceId (transaction a)))
    \<and> parentSpanId d = Val (padStart 16 (CHR ''0'') (parent_id_source a))
    \<and> parentType d = Val ''App''
    \<and> accountId d = Val (account_id (config a))
    \<and> appId d = Val (primary_application_id (config a))
    \<and> transactionId d = coerced_transaction_id a
    \<and> sampled d = Val (truthy_bool (tx_sampled (transaction a)))
    \<and> priority d = coerced_priority (tx_priority (transaction a))"
    by (simp add: accepted_parent_def traceContextData_init_def txid acc_def app_def flag_def)
  with enc show ?thesis unfolding tk_def by blast
qed


lemma round_trip_example:
  "well_formed_state example_agent \<and> pass_through_ok example_sender
   \<and> (\<exists>ts this' d.
        tracestate example_agent example_sender = Some ts
      \<and> acceptTraceContextPayload ''xyz'' 0 TraceContext_init (traceparent example_agent) ts
          = Inr (this', d)
      \<and> acceptedTraceparent d \<and> acceptedTracestate d
      \<and> traceId d = Val ''4bf92f3577b34da6a3ce929d0e0e4736''
      \<and> parentSpanId d = Val ''00f067aa0ba902b7''
      \<and> parentType d = Val ''App''
      \<and> accountId d = Val ''33''
      \<and> appId d = Val ''2827902''
      \<and> transactionId d = Val ''e8b91a159289ff74''
      \<and> sampled d = Val True
      \<and> priority d = Val (Num (1123456 / 1000000)))"
proof -
  have wf: "well_formed_state example_agent"
    by (simp add: well_formed_state_def example_agent_def hex_id_def all_zero_def lower_hex_def
        parent_id_source_def truthy_str_def no_separator_def valid_priority_def)
  have pt: "pass_through_ok example_sender"
    by (simp add: pass_through_ok_def example_sender_def TraceContext_init_def member_ok_def)
  have eqs:
    "padStart 32 (CHR ''0'') (getTraceId (transaction example_agent)) = ''4bf92f3577b34da6a3ce929d0e0e4736''"
    "padStart 16 (CHR ''0'') (parent_id_source example_agent) = ''00f067aa0ba902b7''"
    "account_id (config example_agent) = ''33''"
    "primary_application_id (config example_agent) = ''2827902''"
    "coerced_transaction_id example_agent = Val ''e8b91a159289ff74''"
    "truthy_bool (tx_sampled (transaction example_agent)) = True"
    "coerced_priority (tx_priority (transaction example_agent)) = Val (Num (1123456 / 1000000))"
    "trusted_account_key (config example_agent) = ''xyz''"
    by (simp_all add: example_agent_def padStart_def parent_id_source_def truthy_str_def
        coerced_transaction_id_def truthy_bool_def coerced_priority_def numeral_2_eq_2)
  from round_trip[OF wf pt, of 0 TraceContext_init] wf pt
  show ?thesis unfolding eqs by blast
qed

subsection \<open>The priority 0\<close>

lemma show_nat_clock: "show_nat 1569367663277 = ''1569367663277''"
  by (simp add: show_nat.simps digit_char_def)

lemma zero_priority_tracestate:
  "tracestate zero_priority_agent TraceContext_init
     = Some ''xyz@nr=0-0-33-2827902-f067aa0ba902b7-e8b91a159289ff74-1--1569367663277''"
  by (simp add: tracestate_def zero_priority_agent_def example_agent_def TraceContext_init_def
      priority_text_def indexOf_def PARENT_TYPES_def NR_TRACESTATE_VERSION_def show_int_def
      show_nat_zero show_nat_clock truthy_bool_def truthy_str_def)

lemma zero_priority_traceparent:
  "traceparent zero_priority_agent = ''00-4bf92f3577b34da6a3ce929d0e0e4736-00f067aa0ba902b7-01''"
  by (simp add: traceparent_def zero_priority_agent_def example_agent_def createFlagsHex_cases
      W3C_TRACEPARENT_VERSION_def padStart_def truthy_str_def truthy_bool_def numeral_2_eq_2)

lemma zero_priority_intrinsics:
  "validateAndParseIntrinsics ''0-0-33-2827902-f067aa0ba902b7-e8b91a159289ff74-1--1569367663277'' =
   \<lparr>i_version = Num 0, i_parentType = Val ''App'', i_accountId = Val ''33'',
    i_appId = Val ''2827902'', i_spanId = Val ''f067aa0ba902b7'',
    i_transactionId = Val ''e8b91a159289ff74'', i_sampled = True,
    i_priority = Null, i_timestamp = Num 1569367663277,
    i_entryValid = Val True, i_entryInvalidReason = Undefined\<rparr>"
  by (simp add: intrinsics_defs number_defs)

lemma zero_priority_parsed_tracestate:
  "validateAndParseTraceStateHeader ''xyz''
     ''xyz@nr=0-0-33-2827902-f067aa0ba902b7-e8b91a159289ff74-1--1569367663277'' =
   Inr \<lparr>entryFound = True, tsd_entryValid = Val True, entryInvalidReason = Undefined,
        traceStateValid = True,
        tsd_intrinsics = Val \<lparr>i_version = Num 0, i_parentType = Val ''App'', i_accountId = Val ''33'',
          i_appId = Val ''2827902'', i_spanId = Val ''f067aa0ba902b7'',
          i_transactionId = Val ''e8b91a159289ff74'', i_sampled = True,
          i_priority = Null, i_timestamp = Num 1569367663277,
          i_entryValid = Undefined, i_entryInvalidReason = Undefined\<rparr>,
        newTraceState = Val [], vendors = []\<rparr>"
proof -
  have sp: "split_str (CHR '','') ''xyz@nr=0-0-33-2827902-f067aa0ba902b7-e8b91a159289ff74-1--1569367663277''
     = [''xyz@nr=0-0-33-2827902-f067aa0ba902b7-e8b91a159289ff74-1--1569367663277'']"
    by simp
  have eq: "split_str (CHR ''='') ''xyz@nr=0-0-33-2827902-f067aa0ba902b7-e8b91a159289ff74-1--1569367663277''
     = [''xyz@nr'', ''0-0-33-2827902-f067aa0ba902b7-e8b91a159289ff74-1--1569367663277'']"
    by simp
  show ?thesis
    unfolding validateAndParseTraceStateHeader_def sp
    by (simp add: member_key_def member_ok_def eq at_index_def splice1_def zero_priority_intrinsics)
qed

text \<open>
  C2 (encoding and then decoding gives back every intrinsic field): the code does not do
  this for the priority 0. The tracestate getter tests the priority for truth, so a
  priority that is present and 0 is written as an empty field, as an absent one is, and
  the decoder gives back \<^verbatim>\<open>null\<close>. The unit of work is the well-formed example with
  the priority set to 0: both header values are accepted and every other field comes
  back, the priority does not.
\<close>

theorem zero_priority_lost_in_round_trip:
  "well_formed_state example_agent
   \<and> tx_priority (transaction zero_priority_agent) = Val (Num 0)
   \<and> tracestate zero_priority_agent TraceContext_init
       = Some ''xyz@nr=0-0-33-2827902-f067aa0ba902b7-e8b91a159289ff74-1--1569367663277''
   \<and> acceptTraceContextPayload ''xyz'' 1569367663277 TraceContext_init
        (traceparent zero_priority_agent)
        ''xyz@nr=0-0-33-2827902-f067aa0ba902b7-e8b91a159289ff74-1--1569367663277''
       = Inr (\<lparr>tracingVendors = Val [], trustedParentId = Val ''f067aa0ba902b7'',
               traceStateRaw = Val [], supportability = [''TraceContext/Accept/Success'']\<rparr>,
              \<lparr>acceptedTraceparent = True, acceptedTracestate = True, acceptedNRTracestate = False,
               traceId = Val ''4bf92f3577b34da6a3ce929d0e0e4736'',
               parentSpanId = Val ''00f067aa0ba902b7'', parentType = Val ''App'',
               accountId = Val ''33'', appId = Val ''2827902'',
               transactionId = Val ''e8b91a159289ff74'', sampled = Val True,
               priority = Null, transportDuration = Val (Num 0)\<rparr>)"
proof -
  have wf: "well_formed_state example_agent"
    by (simp add: well_formed_state_def example_agent_def hex_id_def all_zero_def lower_hex_def
        parent_id_source_def truthy_str_def no_separator_def valid_priority_def)
  have p: "tx_priority (transaction zero_priority_agent) = Val (Num 0)"
    by (simp add: zero_priority_agent_def)
  have run: "acceptTraceContextPayload ''xyz'' 1569367663277 TraceContext_init
        (traceparent zero_priority_agent)
        ''xyz@nr=0-0-33-2827902-f067aa0ba902b7-e8b91a159289ff74-1--1569367663277''
       = Inr (\<lparr>tracingVendors = Val [], trustedParentId = Val ''f067aa0ba902b7'',
               traceStateRaw = Val [], supportability = [''TraceContext/Accept/Success'']\<rparr>,
              \<lparr>acceptedTraceparent = True, acceptedTracestate = True, acceptedNRTracestate = False,
               traceId = Val ''4bf92f3577b34da6a3ce929d0e0e4736'',
               parentSpanId = Val ''00f067aa0ba902b7'', parentType = Val ''App'',
               accountId = Val ''33'', appId = Val ''2827902'',
               transactionId = Val ''e8b91a159289ff74'', sampled = Val True,
               priority = Null, transportDuration = Val (Num 0)\<rparr>)"
    unfolding zero_priority_traceparent acceptTraceContextPayload_def example_traceparent
      zero_priority_parsed_tracestate
    by (simp add: traceContextData_init_def TraceContext_init_def recordSupportability_def
        join_opt_def)
  from wf p zero_priority_tracestate run show ?thesis by (intro conjI)
qed

subsection \<open>The stored pass-through value\<close>

lemma split_str_parts_avoid: "\<forall>x\<in>set (split_str c s). c \<notin> set x"
  by (induction s) (auto split: list.splits)

lemma remove_first_keyed_subset: "set (remove_first_keyed k lms) \<subseteq> set lms"
  by (induction lms) auto

lemma stored_pass_through_ok:
  assumes "list_all member_ok (split_str (CHR '','') ts)"
  shows "join_str '','' (remove_first_keyed k (split_str (CHR '','') ts)) = []
       \<or> list_all member_ok (split_str (CHR '','')
            (join_str '','' (remove_first_keyed k (split_str (CHR '','') ts))))"
proof (cases "remove_first_keyed k (split_str (CHR '','') ts) = []")
  case True
  then show ?thesis by simp
next
  case False
  have sub: "set (remove_first_keyed k (split_str (CHR '','') ts)) \<subseteq> set (split_str (CHR '','') ts)"
    by (rule remove_first_keyed_subset)
  with split_str_parts_avoid[of "CHR '',''" ts]
  have "\<forall>x\<in>set (remove_first_keyed k (split_str (CHR '','') ts)). CHR '','' \<notin> set x"
    by blast
  from split_join_str[OF False this] assms sub show ?thesis
    by (auto simp: list_all_iff)
qed

lemma pass_through_ok_init: "pass_through_ok TraceContext_init"
  by (simp add: pass_through_ok_def TraceContext_init_def)

lemma accept_preserves_pass_through_ok:
  assumes "acceptTraceContextPayload tk now this tp ts = Inr (this', d)" "pass_through_ok this"
  shows "pass_through_ok this'"
proof (cases "tp = []")
  case True
  with assms show ?thesis by (simp add: acceptTraceContextPayload_def)
next
  case False
  with assms(1) obtain p where p: "validateAndParseTraceParentHeader tp = Inr p"
    by (cases "validateAndParseTraceParentHeader tp") (auto simp: acceptTraceContextPayload_def)
  show ?thesis
  proof (cases "tpi_entryValid p")
    case False
    with assms p \<open>tp \<noteq> []\<close> show ?thesis
      by (auto simp: acceptTraceContextPayload_def recordSupportability_def pass_through_ok_def)
  next
    case True
    show ?thesis
    proof (cases "list_all member_ok (split_str (CHR '','') ts)")
      case False
      from accept_invalid_tracestate[OF p True False, of tk now this] assms show ?thesis
        by simp
    next
      case oks: True
      from accept_valid_tracestate_stores[OF p True oks, of tk now this] assms(1)
      have "traceStateRaw this' =
          Val (join_str '','' (remove_first_keyed (tk @ ''@nr'') (split_str (CHR '','') ts)))"
        by auto
      with stored_pass_through_ok[OF oks, of "tk @ ''@nr''"] show ?thesis
        by (simp add: pass_through_ok_def)
    qed
  qed
qed

end
